theory Spec2Isabelle
  imports Main "HOL-Library.Multiset"
begin

section \<open>Python strings\<close>

text \<open>
  The program is \<^verbatim>\<open>dashp.py\<close>. A Python \<^verbatim>\<open>str\<close> is modelled as a \<open>string\<close>, one
  \<open>char\<close> per code point (code points below 256). The helpers below are the \<^verbatim>\<open>str\<close>
  methods the program calls.
\<close>

definition endswith :: "string \<Rightarrow> string \<Rightarrow> bool" where
  \<comment> \<open>\<^verbatim>\<open>s.endswith(suf)\<close>\<close>
  "endswith s suf = (length suf \<le> length s \<and> drop (length s - length suf) s = suf)"

definition removesuffix :: "string \<Rightarrow> string \<Rightarrow> string" where
  \<comment> \<open>\<^verbatim>\<open>s.removesuffix(suf)\<close>: one copy of the suffix is removed, when it is there\<close>
  "removesuffix s suf =
     (if suf \<noteq> [] \<and> endswith s suf then take (length s - length suf) s else s)"

fun split_on :: "char \<Rightarrow> string \<Rightarrow> string list" where
  \<comment> \<open>\<^verbatim>\<open>s.split(sep)\<close> for a one-character separator: never the empty list\<close>
  "split_on sep [] = [[]]"
| "split_on sep (c # cs) =
     (if c = sep then [] # split_on sep cs
      else (case split_on sep cs of [] \<Rightarrow> [[c]] | w # ws \<Rightarrow> (c # w) # ws))"

fun join :: "string \<Rightarrow> string list \<Rightarrow> string" where
  \<comment> \<open>\<^verbatim>\<open>sep.join(xs)\<close>\<close>
  "join sep [] = []"
| "join sep [x] = x"
| "join sep (x # y # ys) = x @ sep @ join sep (y # ys)"

definition isspace :: "char \<Rightarrow> bool" where
  \<comment> \<open>\<^verbatim>\<open>str.isspace\<close> on the code points below 256\<close>
  "isspace c = (of_char c \<in> {9, 10, 11, 12, 13, 28, 29, 30, 31, 32, 133, 160 :: nat})"

definition strip :: "string \<Rightarrow> string" where
  \<comment> \<open>\<^verbatim>\<open>s.strip()\<close>: leading and trailing whitespace removed\<close>
  "strip s = rev (dropWhile isspace (rev (dropWhile isspace s)))"

fun py_str :: "string option \<Rightarrow> string" where
  \<comment> \<open>how an f-string renders a value that is a \<^verbatim>\<open>str\<close> or \<^verbatim>\<open>None\<close>\<close>
  "py_str None = ''None''"
| "py_str (Some s) = s"

section \<open>The marker pattern\<close>

text \<open>
  The call is \<^verbatim>\<open>re.sub(r"<dash_entry_.*>", "", path)\<close>. The pattern is the literal
  \<^verbatim>\<open><dash_entry_\<close>, then a greedy star over the dot, then the closing bracket. No flag is
  given, so the dot matches every character but the newline, and the greedy star with
  backtracking makes a match at a position run from the literal to the last closing
  bracket of the same line. \<^verbatim>\<open>re.sub\<close> scans from the left, replaces the first match it
  finds by the empty string and goes on after the end of that match; a position where
  the pattern does not match keeps its character.
\<close>

fun last_index :: "char \<Rightarrow> string \<Rightarrow> nat option" where
  \<comment> \<open>the index of the last occurrence of a character\<close>
  "last_index x [] = None"
| "last_index x (c # cs) =
     (case last_index x cs of
        Some i \<Rightarrow> Some (Suc i)
      | None \<Rightarrow> if c = x then Some 0 else None)"

definition match_at :: "string \<Rightarrow> nat option" where
  \<comment> \<open>the length of the match of the pattern at the start of the string, if there is one\<close>
  "match_at s =
     (if take 12 s = ''<dash_entry_''
      then (case last_index (CHR ''>'') (takeWhile (\<lambda>c. c \<noteq> CHR 0x0A) (drop 12 s)) of
              None \<Rightarrow> None
            | Some k \<Rightarrow> Some (12 + k + 1))
      else None)"

function re_sub_marker :: "string \<Rightarrow> string" where
  "re_sub_marker [] = []"
| "re_sub_marker (c # cs) =
     (case match_at (c # cs) of
        Some n \<Rightarrow> re_sub_marker (drop n (c # cs))
      | None \<Rightarrow> c # re_sub_marker cs)"
  by pat_completeness auto
termination
  by (relation "measure length") (auto simp: match_at_def split: if_splits option.splits)

section \<open>pathlib\<close>

text \<open>
  \<^verbatim>\<open>Path\<close> on a POSIX system. A path is its root (empty, one slash, or two slashes
  when the text starts with exactly two) and its components; parsing drops the empty
  components and the components that are a single dot.
\<close>

record ppath =
  root :: string
  tail :: "string list"

definition splitroot :: "string \<Rightarrow> string \<times> string" where
  \<comment> \<open>\<^verbatim>\<open>posixpath.splitroot\<close>, without the drive (always empty)\<close>
  "splitroot p =
     (if take 1 p \<noteq> ''/'' then ('''', p)
      else if take 1 (drop 1 p) \<noteq> ''/'' \<or> take 1 (drop 2 p) = ''/'' then (''/'', drop 1 p)
      else (''//'', drop 2 p))"

definition Path :: "string \<Rightarrow> ppath" where
  "Path s =
     (let (r, rel) = splitroot s
      in \<lparr>root = r, tail = filter (\<lambda>x. x \<noteq> [] \<and> x \<noteq> ''.'') (split_on (CHR ''/'') rel)\<rparr>)"

definition truediv :: "ppath \<Rightarrow> string \<Rightarrow> ppath" where
  \<comment> \<open>\<^verbatim>\<open>p / s\<close>: a rooted right operand replaces the left one\<close>
  "truediv p s =
     (if root (Path s) \<noteq> [] then Path s else p\<lparr>tail := tail p @ tail (Path s)\<rparr>)"

definition str :: "ppath \<Rightarrow> string" where
  \<comment> \<open>\<^verbatim>\<open>str(p)\<close>: the empty path prints as a dot\<close>
  "str p = (if root p = [] \<and> tail p = [] then ''.'' else root p @ join ''/'' (tail p))"

definition name :: "ppath \<Rightarrow> string" where
  \<comment> \<open>\<^verbatim>\<open>p.name\<close>: the last component, empty when there is none\<close>
  "name p = (if tail p = [] then [] else last (tail p))"

definition stem :: "ppath \<Rightarrow> string" where
  \<comment> \<open>\<^verbatim>\<open>p.stem\<close>: the name up to its last dot, when that dot is neither first nor last\<close>
  "stem p =
     (case last_index (CHR ''.'') (name p) of
        None \<Rightarrow> name p
      | Some i \<Rightarrow> if 0 < i \<and> i < length (name p) - 1 then take i (name p) else name p)"

section \<open>Exceptions and the trace\<close>

text \<open>
  The exceptions the program can meet, as values. \<open>OperationalError\<close> is the class the
  \<^verbatim>\<open>except\<close> clause of \<^verbatim>\<open>merge_docsets\<close> names; \<open>DatabaseError\<close> stands for the
  other classes of \<^verbatim>\<open>sqlite3\<close>. The string is the message.
\<close>

datatype exn =
    OperationalError string
  | DatabaseError string
  | TypeError string
  | FileNotFoundError string
  | OSError string

fun is_OperationalError :: "exn \<Rightarrow> bool" where
  "is_OperationalError (OperationalError m) = True"
| "is_OperationalError e = False"

fun is_FileNotFoundError :: "exn \<Rightarrow> bool" where
  "is_FileNotFoundError (FileNotFoundError m) = True"
| "is_FileNotFoundError e = False"

datatype query = Modern_query | Legacy_query

text \<open>
  What the program does to the outside, in order: log records, the opening of a docset
  store (by the text of its path), a query on it, the run of the selector on its input,
  and the line printed on standard output.
\<close>

datatype event =
    Warning string
  | Error string
  | Connect string
  | Execute string query
  | Run_selector string
  | Print string

section \<open>The docset stores\<close>

text \<open>
  A value read from a store is a text or NULL (\<open>None\<close>); the program annotates the
  rows as triples of \<^verbatim>\<open>str\<close>. The four tables of the legacy schema carry the columns
  the legacy query names; the keys \<^verbatim>\<open>z_pk\<close> are integers, the references to them may be
  NULL. The join conditions of the query say which table holds each key and each
  reference. The query names the four other columns without their table: they are
  placed as the Dash docset format has them (the token name on the token, the anchor
  on the metainformation, the path on the file path, the type name on the token type).
  Each record field is named after its column; the three \<^verbatim>\<open>z_pk\<close> columns get the
  prefix of their table.
\<close>

type_synonym row = "string option \<times> string option \<times> string option"

record ztoken_row =
  ztokenname :: "string option"
  zmetainformation :: "int option"
  ztokentype :: "int option"

record ztokenmetainformation_row =
  meta_z_pk :: int
  zfile :: "int option"
  zanchor :: "string option"

record zfilepath_row =
  file_z_pk :: int
  zpath :: "string option"

record ztokentype_row =
  type_z_pk :: int
  ztypename :: "string option"

record legacy_tables =
  tbl_ztoken :: "ztoken_row list"
  tbl_ztokenmetainformation :: "ztokenmetainformation_row list"
  tbl_zfilepath :: "zfilepath_row list"
  tbl_ztokentype :: "ztokentype_row list"

definition sql_nullif :: "string option \<Rightarrow> string option \<Rightarrow> string option" where
  \<comment> \<open>\<^verbatim>\<open>nullif(x, y)\<close>: NULL when the two are equal (a comparison with NULL is not true)\<close>
  "sql_nullif x y = (if x \<noteq> None \<and> x = y then None else x)"

definition sql_ifnull :: "string option \<Rightarrow> string option \<Rightarrow> string option" where
  \<comment> \<open>\<^verbatim>\<open>ifnull(x, y)\<close>\<close>
  "sql_ifnull x y = (case x of None \<Rightarrow> y | Some v \<Rightarrow> Some v)"

definition sql_concat :: "string option \<Rightarrow> string option \<Rightarrow> string option" where
  \<comment> \<open>\<^verbatim>\<open>x || y\<close>: NULL as soon as one side is\<close>
  "sql_concat x y =
     (case x of None \<Rightarrow> None | Some a \<Rightarrow> (case y of None \<Rightarrow> None | Some b \<Rightarrow> Some (a @ b)))"

definition url :: "string option \<Rightarrow> string option \<Rightarrow> string option" where
  \<comment> \<open>\<^verbatim>\<open>zpath || ifnull('#' || nullif(zanchor, ''), '')\<close>\<close>
  "url zp za =
     sql_concat zp (sql_ifnull (sql_concat (Some [CHR 0x23]) (sql_nullif za (Some []))) (Some []))"

definition token_rows :: "legacy_tables \<Rightarrow> ztoken_row \<Rightarrow> row list" where
  \<comment> \<open>the rows of the join that come from one token: three inner joins\<close>
  "token_rows db t =
     [(ztokenname t, ztypename ty, url (zpath f) (zanchor m)).
        m \<leftarrow> tbl_ztokenmetainformation db, Some (meta_z_pk m) = zmetainformation t,
        f \<leftarrow> tbl_zfilepath db, Some (file_z_pk f) = zfile m,
        ty \<leftarrow> tbl_ztokentype db, Some (type_z_pk ty) = ztokentype t]"

definition legacy_select :: "legacy_tables \<Rightarrow> row list" where
  \<comment> \<open>the rows of the legacy query, token by token; the engine returns them in its own order\<close>
  "legacy_select db = concat (map (token_rows db) (tbl_ztoken db))"

text \<open>
  A query ends in one of three ways: \<^verbatim>\<open>execute\<close> raises; \<^verbatim>\<open>execute\<close> gives a cursor
  and \<^verbatim>\<open>fetchall\<close> raises; \<^verbatim>\<open>fetchall\<close> gives the rows. A store answers the modern query
  with rows of the flat table, and the legacy query over its four tables. The legacy
  query has no \<^verbatim>\<open>ORDER BY\<close>: the order of its rows is the engine's, and \<open>legacy_order\<close>
  is that order, as a rearrangement of the rows of the join. A store file is missing, or
  cannot be opened, or is a store.
\<close>

datatype 'a query_outcome = Execute_raises exn | Fetch_raises exn | Rows 'a

record store =
  modern_result :: "row list query_outcome"
  legacy_result :: "legacy_tables query_outcome"
  legacy_order :: "row list \<Rightarrow> row list"

datatype store_file = Missing | Unopenable exn | Database store

section \<open>merge_docsets\<close>

record entry =
  e_id :: nat
  e_name :: "string option"
  e_type :: "string option"
  e_docset :: string
  e_path :: string

definition next_id :: "entry list \<Rightarrow> nat" where
  \<comment> \<open>the key an insertion gets: one more than the largest key in the table\<close>
  "next_id idx = Suc (fold max (map e_id idx) 0)"

definition documents_root :: "ppath \<Rightarrow> string" where
  "documents_root docset = str (truediv docset ''Contents/Resources/Documents'')"

definition prefixed_path :: "ppath \<Rightarrow> string \<Rightarrow> string" where
  "prefixed_path docset path = documents_root docset @ ''/'' @ path"

definition fetch_rows :: "string \<Rightarrow> store \<Rightarrow> event list \<times> (exn + row list)" where
  \<comment> \<open>the \<^verbatim>\<open>try\<close> block guards \<^verbatim>\<open>execute\<close> of the modern query only; the handler runs
      \<^verbatim>\<open>execute\<close> of the legacy query; \<^verbatim>\<open>fetchall\<close> comes after the block, unguarded\<close>
  "fetch_rows p st =
     (case modern_result st of
        Rows rows \<Rightarrow> ([Execute p Modern_query], Inr rows)
      | Fetch_raises e \<Rightarrow> ([Execute p Modern_query], Inl e)
      | Execute_raises e \<Rightarrow>
          if is_OperationalError e
          then ([Execute p Modern_query, Execute p Legacy_query],
                case legacy_result st of
                  Rows db \<Rightarrow> Inr (legacy_order st (legacy_select db))
                | Fetch_raises e' \<Rightarrow> Inl e'
                | Execute_raises e' \<Rightarrow> Inl e')
          else ([Execute p Modern_query], Inl e))"

fun insert_rows :: "ppath \<Rightarrow> row list \<Rightarrow> entry list \<Rightarrow> exn + entry list" where
  \<comment> \<open>the loop over the rows; \<^verbatim>\<open>re.sub\<close> raises on a path that is not a string\<close>
  "insert_rows docset [] idx = Inr idx"
| "insert_rows docset ((nm, entry_type, path) # rows) idx =
     (case path of
        None \<Rightarrow> Inl (TypeError ''expected string or bytes-like object'')
      | Some p \<Rightarrow>
          insert_rows docset rows
            (idx @ [\<lparr>e_id = next_id idx, e_name = nm, e_type = entry_type,
                     e_docset = stem docset,
                     e_path = prefixed_path docset (re_sub_marker p)\<rparr>]))"

definition docset_db_path :: "ppath \<Rightarrow> string" where
  "docset_db_path docset = str (truediv docset ''Contents/Resources/docSet.dsidx'')"

definition merge_docset ::
  "(string \<Rightarrow> store_file) \<Rightarrow> ppath \<Rightarrow> event list \<Rightarrow> entry list \<Rightarrow> event list \<times> (exn + entry list)"
where
  \<comment> \<open>one turn of the loop over the docsets\<close>
  "merge_docset fs docset tr idx =
     (case fs (docset_db_path docset) of
        Missing \<Rightarrow>
          (tr @ [Warning (''Database not found for docset: '' @ str docset)], Inr idx)
      | Unopenable e \<Rightarrow> (tr @ [Connect (docset_db_path docset)], Inl e)
      | Database st \<Rightarrow>
          (case fetch_rows (docset_db_path docset) st of
             (evs, Inl e) \<Rightarrow> (tr @ Connect (docset_db_path docset) # evs, Inl e)
           | (evs, Inr rows) \<Rightarrow>
               (tr @ Connect (docset_db_path docset) # evs, insert_rows docset rows idx)))"

fun merge_loop ::
  "(string \<Rightarrow> store_file) \<Rightarrow> ppath list \<Rightarrow> event list \<Rightarrow> entry list \<Rightarrow> event list \<times> (exn + entry list)"
where
  "merge_loop fs [] tr idx = (tr, Inr idx)"
| "merge_loop fs (docset # docsets) tr idx =
     (case merge_docset fs docset tr idx of
        (tr', Inl e) \<Rightarrow> (tr', Inl e)
      | (tr', Inr idx') \<Rightarrow> merge_loop fs docsets tr' idx')"

definition merge_docsets :: "(string \<Rightarrow> store_file) \<Rightarrow> ppath list \<Rightarrow> event list \<times> (exn + entry list)" where
  \<comment> \<open>the unified index starts empty; an exception leaves the function with no index\<close>
  "merge_docsets fs docsets = merge_loop fs docsets [] []"

section \<open>launch_fzf and main\<close>

fun digits :: "nat \<Rightarrow> string" where
  "digits n = (if n < 10 then [char_of (48 + n)] else digits (n div 10) @ [char_of (48 + n mod 10)])"

definition show_int :: "int \<Rightarrow> string" where
  \<comment> \<open>the \<^verbatim>\<open>%d\<close> format\<close>
  "show_int i = (if i < 0 then ''-'' @ digits (nat (- i)) else digits (nat i))"

text \<open>
  The selector is outside the program: running it on an input either raises (the
  executable is not found, or another error of the operating system) or completes with
  a return code and the text of its standard output.
\<close>

datatype selector_run = Raises exn | Completed int string

text \<open>
  How the process ends: \<^verbatim>\<open>sys.exit(n)\<close>, or an exception nobody catches. The exit
  status the operating system reports is the low byte of \<open>n\<close>, and 1 after an uncaught
  exception.
\<close>

datatype process_end = Exit int | Uncaught exn

fun exit_status :: "process_end \<Rightarrow> int" where
  "exit_status (Exit n) = n mod 256"
| "exit_status (Uncaught e) = 1"

definition render :: "entry \<Rightarrow> string" where
  "render e =
     py_str (e_name e) @ '' ('' @ py_str (e_type e) @ '', '' @ e_docset e @ '')''
       @ [CHR 0x09] @ e_path e"

definition fzf_input :: "entry list \<Rightarrow> string" where
  "fzf_input db = join [CHR 0x0A] (map render db)"

definition launch_fzf ::
  "(string \<Rightarrow> selector_run) \<Rightarrow> entry list \<Rightarrow> event list \<times> (process_end + string option)"
where
  \<comment> \<open>\<open>Inl\<close>: the function is left by \<^verbatim>\<open>sys.exit\<close> or by an exception it does not catch\<close>
  "launch_fzf fzf db =
     (case fzf (fzf_input db) of
        Raises e \<Rightarrow>
          if is_FileNotFoundError e
          then ([Run_selector (fzf_input db), Error ''FZF is not installed.''], Inr None)
          else ([Run_selector (fzf_input db)], Inl (Uncaught e))
      | Completed returncode stdout \<Rightarrow>
          if returncode = 130 then ([Run_selector (fzf_input db)], Inr None)
          else if returncode \<noteq> 0
          then ([Run_selector (fzf_input db),
                 Error (''FZF failed to run with exit code: '' @ show_int returncode)],
                Inl (Exit returncode))
          else if strip stdout \<noteq> [] then ([Run_selector (fzf_input db)], Inr (Some (strip stdout)))
          else ([Run_selector (fzf_input db)], Inr None))"

definition is_docset_arg :: "string \<Rightarrow> bool" where
  \<comment> \<open>\<^verbatim>\<open>arg.removesuffix("/").endswith(".docset")\<close>\<close>
  "is_docset_arg arg = endswith (removesuffix arg ''/'') ''.docset''"

definition main ::
  "(string \<Rightarrow> store_file) \<Rightarrow> (string \<Rightarrow> selector_run) \<Rightarrow> string \<Rightarrow> string list \<Rightarrow> event list \<times> process_end"
where
  \<comment> \<open>\<open>prog\<close> is \<^verbatim>\<open>sys.argv[0]\<close>, \<open>args\<close> is \<^verbatim>\<open>sys.argv[1:]\<close>\<close>
  "main fs fzf prog args =
     (if args = []
      then ([Error (''Usage: '' @ prog @ '' <docset1> <docset2> ...'')], Exit 1)
      else
        let docsets = map Path (filter is_docset_arg args)
        in if docsets = [] then ([Error ''No docsets provided.''], Exit 1)
           else
             (case merge_docsets fs docsets of
                (tr, Inl e) \<Rightarrow> (tr, Uncaught e)
              | (tr, Inr db) \<Rightarrow>
                  (case launch_fzf fzf db of
                     (tr', Inl t) \<Rightarrow> (tr @ tr', t)
                   | (tr', Inr None) \<Rightarrow> (tr @ tr', Exit 1)
                   | (tr', Inr (Some selected_path)) \<Rightarrow>
                       if selected_path \<noteq> []
                       then (tr @ tr' @ [Print selected_path], Exit 0)
                       else (tr @ tr', Exit 1))))"

section \<open>Properties of the marker pattern\<close>

lemma last_index_None: "x \<notin> set s \<Longrightarrow> last_index x s = None"
  by (induction s) auto

lemma last_index_None_iff: "last_index x s = None \<longleftrightarrow> x \<notin> set s"
  by (induction s) (auto split: option.splits)

lemma last_index_append:
  "last_index x (xs @ ys) =
     (case last_index x ys of Some i \<Rightarrow> Some (length xs + i) | None \<Rightarrow> last_index x xs)"
  by (induction xs) (auto split: option.splits)

lemma match_at_None_iff:
  "match_at s = None \<longleftrightarrow>
     \<not> (take 12 s = ''<dash_entry_''
        \<and> CHR ''>'' \<in> set (takeWhile (\<lambda>c. c \<noteq> CHR 0x0A) (drop 12 s)))"
proof (cases "take 12 s = ''<dash_entry_''")
  case True
  let ?line = "takeWhile (\<lambda>c. c \<noteq> CHR 0x0A) (drop 12 s)"
  have m: "match_at s = (case last_index (CHR ''>'') ?line of None \<Rightarrow> None | Some k \<Rightarrow> Some (12 + k + 1))"
    unfolding match_at_def using True by (simp only: refl if_True)
  show ?thesis
  proof (cases "last_index (CHR ''>'') ?line")
    case None
    then have "CHR ''>'' \<notin> set ?line" using last_index_None_iff [of "CHR ''>''" ?line] by blast
    moreover have "match_at s = None" unfolding m None by (simp only: option.case)
    ultimately show ?thesis by blast
  next
    case (Some k)
    then have "CHR ''>'' \<in> set ?line" using last_index_None_iff [of "CHR ''>''" ?line] by auto
    moreover have "match_at s = Some (12 + k + 1)" unfolding m Some by (simp only: option.case)
    ultimately show ?thesis using True by simp
  qed
next
  case False
  then have "match_at s = None" unfolding match_at_def by (simp only: if_False)
  with False show ?thesis by blast
qed

lemma match_at_no_close: "CHR ''>'' \<notin> set s \<Longrightarrow> match_at s = None"
proof -
  assume a: "CHR ''>'' \<notin> set s"
  have "CHR ''>'' \<notin> set (takeWhile (\<lambda>c. c \<noteq> CHR 0x0A) (drop 12 s))"
    using a set_takeWhileD [of "CHR ''>''" "\<lambda>c. c \<noteq> CHR 0x0A" "drop 12 s"]
      in_set_dropD [of "CHR ''>''" 12 s]
    by blast
  then show ?thesis by (simp only: match_at_None_iff) blast
qed

lemma re_sub_marker_no_match:
  "(\<And>i. match_at (drop i s) = None) \<Longrightarrow> re_sub_marker s = s"
proof (induction s)
  case Nil
  show ?case by simp
next
  case (Cons c cs)
  have here: "match_at (c # cs) = None" using Cons.prems [of 0] by simp
  have "\<And>i. match_at (drop i cs) = None" using Cons.prems [of "Suc i" for i] by simp
  then have "re_sub_marker cs = cs" by (rule Cons.IH)
  with here show ?case by simp
qed

lemma re_sub_marker_no_close: "CHR ''>'' \<notin> set s \<Longrightarrow> re_sub_marker s = s"
proof (rule re_sub_marker_no_match)
  fix i assume "CHR ''>'' \<notin> set s"
  then have "CHR ''>'' \<notin> set (drop i s)" using in_set_dropD [of "CHR ''>''" i s] by blast
  then show "match_at (drop i s) = None" by (rule match_at_no_close)
qed

lemma re_sub_marker_scan:
  "(\<And>i. i < length pre \<Longrightarrow> match_at (drop i (pre @ r)) = None) \<Longrightarrow>
     re_sub_marker (pre @ r) = pre @ re_sub_marker r"
proof (induction pre)
  case Nil
  show ?case by simp
next
  case (Cons c pre)
  have here: "match_at (c # pre @ r) = None" using Cons.prems [of 0] by simp
  have "\<And>i. i < length pre \<Longrightarrow> match_at (drop i (pre @ r)) = None"
    using Cons.prems [of "Suc i" for i] by simp
  then have "re_sub_marker (pre @ r) = pre @ re_sub_marker r" by (rule Cons.IH)
  with here show ?case by simp
qed

lemma drop_len_append: "n = length xs \<Longrightarrow> drop n (xs @ ys) = ys"
  by simp

lemma match_at_other_head: "c \<noteq> CHR ''<'' \<Longrightarrow> match_at (c # s) = None"
  by (simp add: match_at_def)

lemma match_at_marker:
  assumes "CHR 0x0A \<notin> set mid"
    and "CHR ''>'' \<notin> set (takeWhile (\<lambda>c. c \<noteq> CHR 0x0A) post)"
  shows "match_at (''<dash_entry_'' @ mid @ ''>'' @ post) = Some (12 + length mid + 1)"
proof -
  let ?P = "\<lambda>c. c \<noteq> CHR 0x0A"
  have tw: "takeWhile ?P (mid @ CHR ''>'' # post) = mid @ CHR ''>'' # takeWhile ?P post"
    using assms(1) by (subst takeWhile_append2) auto
  have "last_index (CHR ''>'') (mid @ CHR ''>'' # takeWhile ?P post) = Some (length mid)"
    using assms(2) by (simp add: last_index_append last_index_None)
  with tw show ?thesis by (simp add: match_at_def)
qed

lemma drop_marker:
  "drop (12 + length mid + 1) (''<dash_entry_'' @ mid @ ''>'' @ post) = post"
proof -
  have eq: "''<dash_entry_'' @ mid @ ''>'' @ post = (''<dash_entry_'' @ mid @ ''>'') @ post"
    by simp
  have "drop (12 + length mid + 1) ((''<dash_entry_'' @ mid @ ''>'') @ post) = post"
    by (rule drop_len_append) simp
  then show ?thesis unfolding eq .
qed

lemma re_sub_marker_at_marker:
  assumes "CHR 0x0A \<notin> set mid"
    and "CHR ''>'' \<notin> set (takeWhile (\<lambda>c. c \<noteq> CHR 0x0A) post)"
  shows "re_sub_marker (''<dash_entry_'' @ mid @ ''>'' @ post) = re_sub_marker post"
proof -
  obtain c cs where cons: "''<dash_entry_'' @ mid @ ''>'' @ post = c # cs"
    by simp
  have "match_at (c # cs) = Some (12 + length mid + 1)"
    using match_at_marker [OF assms] unfolding cons .
  then have "re_sub_marker (c # cs) = re_sub_marker (drop (12 + length mid + 1) (c # cs))"
    by (simp only: re_sub_marker.simps option.case)
  then show ?thesis
    unfolding cons [symmetric] drop_marker .
qed

lemma takeWhile_dropWhile_Nil: "takeWhile P (dropWhile P xs) = []"
  by (induction xs) auto

lemma leftmost_match:
  assumes "match_at (drop i s) \<noteq> None"
  shows "\<exists>pre mid post. s = pre @ ''<dash_entry_'' @ mid @ ''>'' @ post
           \<and> length pre = i \<and> CHR 0x0A \<notin> set mid
           \<and> CHR ''>'' \<notin> set (takeWhile (\<lambda>c. c \<noteq> CHR 0x0A) post)"
proof -
  let ?P = "\<lambda>c. c \<noteq> CHR 0x0A"
  let ?rest = "drop 12 (drop i s)"
  from assms have both: "take 12 (drop i s) = ''<dash_entry_''
      \<and> CHR ''>'' \<in> set (takeWhile ?P ?rest)"
    unfolding match_at_None_iff not_not .
  then have lit: "take 12 (drop i s) = ''<dash_entry_''" ..
  from both have close: "CHR ''>'' \<in> set (takeWhile ?P ?rest)" ..
  from split_list_last [OF close] obtain mid b where
    line: "takeWhile ?P ?rest = mid @ CHR ''>'' # b" and b: "CHR ''>'' \<notin> set b"
    by blast
  have all: "\<And>x. x \<in> set (mid @ CHR ''>'' # b) \<Longrightarrow> ?P x"
    using set_takeWhileD [of _ ?P ?rest] unfolding line [symmetric] by blast
  have mid: "CHR 0x0A \<notin> set mid" using all by auto
  have bP: "\<And>x. x \<in> set b \<Longrightarrow> ?P x" using all by auto
  let ?post = "b @ dropWhile ?P ?rest"
  have "takeWhile ?P ?post = b @ takeWhile ?P (dropWhile ?P ?rest)"
    using bP by (subst takeWhile_append2) auto
  then have tw: "takeWhile ?P ?post = b" by (simp only: takeWhile_dropWhile_Nil append_Nil2)
  have rest: "?rest = mid @ ''>'' @ ?post"
    using takeWhile_dropWhile_id [of ?P ?rest] unfolding line by simp
  have "drop i s = take 12 (drop i s) @ ?rest" by (simp only: append_take_drop_id)
  then have di: "drop i s = ''<dash_entry_'' @ mid @ ''>'' @ ?post"
    unfolding lit using rest by (simp only:)
  have "drop i s \<noteq> []" using lit by auto
  then have len: "length (take i s) = i" by simp
  have "s = take i s @ drop i s" by (simp only: append_take_drop_id)
  then have s: "s = take i s @ ''<dash_entry_'' @ mid @ ''>'' @ ?post"
    using di by (simp only:)
  from s len mid b tw show ?thesis by metis
qed

text \<open>
  Claim C1, as the code has it. A match begins at a position when the text there starts
  with the literal \<^verbatim>\<open><dash_entry_\<close> and a closing bracket follows on the same line. The
  first conjunct: a raw path with no such position is kept as it is. The second: in a
  raw path made of a text \<open>pre\<close> in which no match begins, the literal, a text \<open>mid\<close>
  without a newline, a closing bracket and a text \<open>post\<close> with no closing bracket left
  on its first line, the match runs from the literal to that closing bracket, which is
  the last one of the line; \<open>pre\<close> is kept and the scan goes on in \<open>post\<close>, where a
  marker on a later line is removed by a match of its own. The third: every raw path in
  which a match begins has that form, so the first two conjuncts give the result for
  every raw path. The fourth is the case of one match: whatever \<open>mid\<close> holds (further
  markers and the text between them too) goes with the match. Markers of one line are
  not removed one by one.
\<close>

theorem re_sub_marker_greedy:
  "((\<forall>i. \<not> (take 12 (drop i s) = ''<dash_entry_''
            \<and> CHR ''>'' \<in> set (takeWhile (\<lambda>c. c \<noteq> CHR 0x0A) (drop 12 (drop i s)))))
      \<longrightarrow> re_sub_marker s = s)
   \<and> (CHR 0x0A \<notin> set mid \<and> CHR ''>'' \<notin> set (takeWhile (\<lambda>c. c \<noteq> CHR 0x0A) post)
       \<and> (\<forall>i < length pre.
             \<not> (take 12 (drop i (pre @ ''<dash_entry_'' @ mid @ ''>'' @ post)) = ''<dash_entry_''
                \<and> CHR ''>'' \<in> set (takeWhile (\<lambda>c. c \<noteq> CHR 0x0A)
                     (drop 12 (drop i (pre @ ''<dash_entry_'' @ mid @ ''>'' @ post))))))
      \<longrightarrow> re_sub_marker (pre @ ''<dash_entry_'' @ mid @ ''>'' @ post) = pre @ re_sub_marker post)
   \<and> ((\<exists>i. take 12 (drop i s) = ''<dash_entry_''
            \<and> CHR ''>'' \<in> set (takeWhile (\<lambda>c. c \<noteq> CHR 0x0A) (drop 12 (drop i s))))
      \<longrightarrow> (\<exists>pre mid post. s = pre @ ''<dash_entry_'' @ mid @ ''>'' @ post
             \<and> CHR 0x0A \<notin> set mid
             \<and> CHR ''>'' \<notin> set (takeWhile (\<lambda>c. c \<noteq> CHR 0x0A) post)
             \<and> (\<forall>i < length pre.
                   \<not> (take 12 (drop i s) = ''<dash_entry_''
                      \<and> CHR ''>'' \<in> set (takeWhile (\<lambda>c. c \<noteq> CHR 0x0A) (drop 12 (drop i s)))))))
   \<and> (CHR ''<'' \<notin> set pre \<and> CHR 0x0A \<notin> set mid \<and> CHR ''>'' \<notin> set post
      \<longrightarrow> re_sub_marker (pre @ ''<dash_entry_'' @ mid @ ''>'' @ post) = pre @ post)"
proof (intro conjI impI)
  assume "\<forall>i. \<not> (take 12 (drop i s) = ''<dash_entry_''
            \<and> CHR ''>'' \<in> set (takeWhile (\<lambda>c. c \<noteq> CHR 0x0A) (drop 12 (drop i s))))"
  then have "\<And>i. match_at (drop i s) = None" unfolding match_at_None_iff by (rule spec)
  then show "re_sub_marker s = s" by (rule re_sub_marker_no_match)
next
  let ?s = "pre @ ''<dash_entry_'' @ mid @ ''>'' @ post"
  assume a: "CHR 0x0A \<notin> set mid \<and> CHR ''>'' \<notin> set (takeWhile (\<lambda>c. c \<noteq> CHR 0x0A) post)
       \<and> (\<forall>i < length pre.
             \<not> (take 12 (drop i ?s) = ''<dash_entry_''
                \<and> CHR ''>'' \<in> set (takeWhile (\<lambda>c. c \<noteq> CHR 0x0A) (drop 12 (drop i ?s)))))"
  note a1 = a [THEN conjunct1] and a2 = a [THEN conjunct2, THEN conjunct1]
    and a3 = a [THEN conjunct2, THEN conjunct2]
  have "\<And>i. i < length pre \<Longrightarrow> match_at (drop i ?s) = None"
    unfolding match_at_None_iff by (rule a3 [rule_format])
  then have "re_sub_marker ?s = pre @ re_sub_marker (''<dash_entry_'' @ mid @ ''>'' @ post)"
    by (rule re_sub_marker_scan)
  also have "re_sub_marker (''<dash_entry_'' @ mid @ ''>'' @ post) = re_sub_marker post"
    using a1 a2 by (rule re_sub_marker_at_marker)
  finally show "re_sub_marker ?s = pre @ re_sub_marker post" .
next
  define M where "M i \<longleftrightarrow> take 12 (drop i s) = ''<dash_entry_''
            \<and> CHR ''>'' \<in> set (takeWhile (\<lambda>c. c \<noteq> CHR 0x0A) (drop 12 (drop i s)))" for i
  assume "\<exists>i. take 12 (drop i s) = ''<dash_entry_''
            \<and> CHR ''>'' \<in> set (takeWhile (\<lambda>c. c \<noteq> CHR 0x0A) (drop 12 (drop i s)))"
  then have "\<exists>i. M i" unfolding M_def .
  then obtain i where i: "M i" and least: "\<forall>j<i. \<not> M j"
    using exists_least_iff [of M] by blast
  have 1: "match_at (drop i s) \<noteq> None"
    unfolding match_at_None_iff not_not using i unfolding M_def .
  from leftmost_match [OF 1] obtain pre mid post where
    p: "s = pre @ ''<dash_entry_'' @ mid @ ''>'' @ post \<and> length pre = i \<and> CHR 0x0A \<notin> set mid
      \<and> CHR ''>'' \<notin> set (takeWhile (\<lambda>c. c \<noteq> CHR 0x0A) post)"
    by (elim exE)
  note p1 = p [THEN conjunct1] and p2 = p [THEN conjunct2, THEN conjunct1]
    and p3 = p [THEN conjunct2, THEN conjunct2, THEN conjunct1]
    and p4 = p [THEN conjunct2, THEN conjunct2, THEN conjunct2]
  have "\<forall>i < length pre. \<not> M i" using least unfolding p2 .
  then have p5: "\<forall>i < length pre.
                   \<not> (take 12 (drop i s) = ''<dash_entry_''
                      \<and> CHR ''>'' \<in> set (takeWhile (\<lambda>c. c \<noteq> CHR 0x0A) (drop 12 (drop i s))))"
    unfolding M_def .
  show "\<exists>pre mid post. s = pre @ ''<dash_entry_'' @ mid @ ''>'' @ post
             \<and> CHR 0x0A \<notin> set mid
             \<and> CHR ''>'' \<notin> set (takeWhile (\<lambda>c. c \<noteq> CHR 0x0A) post)
             \<and> (\<forall>i < length pre.
                   \<not> (take 12 (drop i s) = ''<dash_entry_''
                      \<and> CHR ''>'' \<in> set (takeWhile (\<lambda>c. c \<noteq> CHR 0x0A) (drop 12 (drop i s)))))"
    using p1 p3 p4 p5 by (intro exI conjI)
next
  assume a: "CHR ''<'' \<notin> set pre \<and> CHR 0x0A \<notin> set mid \<and> CHR ''>'' \<notin> set post"
  let ?r = "''<dash_entry_'' @ mid @ ''>'' @ post"
  have "\<And>i. i < length pre \<Longrightarrow> match_at (drop i (pre @ ?r)) = None"
  proof -
    fix i assume i: "i < length pre"
    then have eq: "drop i (pre @ ?r) = pre ! i # drop (Suc i) pre @ ?r"
      by (simp add: Cons_nth_drop_Suc)
    have "pre ! i \<noteq> CHR ''<''" using a i nth_mem [of i pre] by metis
    then have "match_at (pre ! i # drop (Suc i) pre @ ?r) = None"
      by (rule match_at_other_head)
    then show "match_at (drop i (pre @ ?r)) = None" unfolding eq .
  qed
  then have "re_sub_marker (pre @ ?r) = pre @ re_sub_marker ?r" by (rule re_sub_marker_scan)
  also have "re_sub_marker ?r = re_sub_marker post"
  proof (rule re_sub_marker_at_marker)
    show "CHR 0x0A \<notin> set mid" using a by blast
    show "CHR ''>'' \<notin> set (takeWhile (\<lambda>c. c \<noteq> CHR 0x0A) post)"
      using a set_takeWhileD [of "CHR ''>''" "\<lambda>c. c \<noteq> CHR 0x0A" post] by blast
  qed
  also have "re_sub_marker post = post" using a by (intro re_sub_marker_no_close) blast
  finally show "re_sub_marker (pre @ ?r) = pre @ post" .
qed

theorem re_sub_marker_greedy_witness:
  "re_sub_marker (''<dash_entry_a>x'' @ [CHR 0x0A] @ ''<dash_entry_b>y'') = ''x'' @ [CHR 0x0A] @ ''y''
   \<and> re_sub_marker ''a/<dash_entry_foo>middle<dash_entry_bar>b.html'' = ''a/b.html''
   \<and> re_sub_marker ''a/b.html'' = ''a/b.html''"
proof -
  let ?nl = "\<lambda>c. c \<noteq> CHR 0x0A"
  have one: "re_sub_marker ''a/<dash_entry_foo>middle<dash_entry_bar>b.html'' = ''a/b.html''"
    using re_sub_marker_greedy [where pre = "''a/''" and mid = "''foo>middle<dash_entry_bar''"
        and post = "''b.html''",
      THEN conjunct2, THEN conjunct2, THEN conjunct2]
    by simp
  have second: "re_sub_marker (''x'' @ [CHR 0x0A] @ ''<dash_entry_'' @ ''b'' @ ''>'' @ ''y'')
                  = (''x'' @ [CHR 0x0A]) @ ''y''"
    using re_sub_marker_greedy [where pre = "''x'' @ [CHR 0x0A]" and mid = "''b''" and post = "''y''",
      THEN conjunct2, THEN conjunct2, THEN conjunct2]
    by simp
  have "re_sub_marker ([] @ ''<dash_entry_'' @ ''a'' @ ''>'' @ (''x'' @ [CHR 0x0A] @ ''<dash_entry_b>y''))
          = [] @ re_sub_marker (''x'' @ [CHR 0x0A] @ ''<dash_entry_b>y'')"
    by (rule re_sub_marker_greedy [where pre = "[]" and mid = "''a''"
        and post = "''x'' @ [CHR 0x0A] @ ''<dash_entry_b>y''",
      THEN conjunct2, THEN conjunct1, THEN mp]) simp
  with second have two:
    "re_sub_marker (''<dash_entry_a>x'' @ [CHR 0x0A] @ ''<dash_entry_b>y'') = ''x'' @ [CHR 0x0A] @ ''y''"
    by simp
  have none: "\<forall>i. \<not> (take 12 (drop i ''a/b.html'') = ''<dash_entry_''
            \<and> CHR ''>'' \<in> set (takeWhile ?nl (drop 12 (drop i ''a/b.html''))))"
  proof (intro allI notI)
    fix i
    assume "take 12 (drop i ''a/b.html'') = ''<dash_entry_''
            \<and> CHR ''>'' \<in> set (takeWhile ?nl (drop 12 (drop i ''a/b.html'')))"
    then have "CHR ''>'' \<in> set (takeWhile ?nl (drop 12 (drop i ''a/b.html'')))" ..
    then have "CHR ''>'' \<in> set (drop 12 (drop i ''a/b.html''))"
      by (rule set_takeWhileD [THEN conjunct1])
    then have "CHR ''>'' \<in> set (drop i ''a/b.html'')" by (rule in_set_dropD)
    then have "CHR ''>'' \<in> set ''a/b.html''" by (rule in_set_dropD)
    then show False by simp
  qed
  have three: "re_sub_marker ''a/b.html'' = ''a/b.html''"
    by (rule re_sub_marker_greedy [where s = "''a/b.html''", THEN conjunct1, THEN mp, OF none])
  from two one three show ?thesis by (intro conjI)
qed

text \<open>
  Claim C1, as stated, fails: stripping the raw path with two markers around the text
  \<^verbatim>\<open>middle\<close> yields the empty string, not \<^verbatim>\<open>middle\<close>.
\<close>

theorem marker_interior_counterexample:
  "re_sub_marker ''<dash_entry_foo>middle<dash_entry_bar>'' = []
   \<and> re_sub_marker ''<dash_entry_foo>middle<dash_entry_bar>'' \<noteq> ''middle''"
  by code_simp

section \<open>Properties of the merge\<close>

lemma merge_loop_append:
  "merge_loop fs (xs @ ys) tr idx =
     (case merge_loop fs xs tr idx of
        (tr', Inl e) \<Rightarrow> (tr', Inl e)
      | (tr', Inr idx') \<Rightarrow> merge_loop fs ys tr' idx')"
  by (induction xs arbitrary: tr idx) (auto split: prod.splits sum.splits)















lemma merge_docset_trace:
  "merge_docset fs d tr idx
     = (tr @ fst (merge_docset fs d [] idx), snd (merge_docset fs d [] idx))"
  by (simp add: merge_docset_def split: store_file.splits prod.splits sum.splits)

lemma merge_loop_trace:
  "merge_loop fs ds tr idx
     = (tr @ fst (merge_loop fs ds [] idx), snd (merge_loop fs ds [] idx))"
proof (induction ds arbitrary: tr idx)
  case Nil
  show ?case by simp
next
  case (Cons d ds)
  obtain t1 r1 where one: "merge_docset fs d [] idx = (t1, r1)" by (cases "merge_docset fs d [] idx")
  then have one': "merge_docset fs d tr idx = (tr @ t1, r1)"
    using merge_docset_trace [of fs d tr idx] by simp
  show ?case
  proof (cases r1)
    case (Inl e)
    with one one' show ?thesis by simp
  next
    case (Inr idx1)
    have a: "merge_loop fs ds (tr @ t1) idx1
               = ((tr @ t1) @ fst (merge_loop fs ds [] idx1), snd (merge_loop fs ds [] idx1))"
      by (rule Cons.IH)
    have b: "merge_loop fs ds t1 idx1
               = (t1 @ fst (merge_loop fs ds [] idx1), snd (merge_loop fs ds [] idx1))"
      by (rule Cons.IH)
    from Inr one one' show ?thesis by (simp add: a b)
  qed
qed

lemma merge_loop_skip_missing:
  assumes "fs (docset_db_path d) = Missing"
  shows "snd (merge_loop fs (pre @ d # post) tr idx) = snd (merge_loop fs (pre @ post) tr idx)"
proof -
  obtain t1 r1 where pre: "merge_loop fs pre tr idx = (t1, r1)" by (cases "merge_loop fs pre tr idx")
  show ?thesis
  proof (cases r1)
    case (Inl e)
    with pre show ?thesis by (simp add: merge_loop_append)
  next
    case (Inr idx1)
    let ?w = "Warning (''Database not found for docset: '' @ str d)"
    have "merge_loop fs (d # post) t1 idx1 = merge_loop fs post (t1 @ [?w]) idx1"
      using assms by (simp add: merge_docset_def)
    moreover have "snd (merge_loop fs post (t1 @ [?w]) idx1) = snd (merge_loop fs post t1 idx1)"
      using merge_loop_trace [of fs post "t1 @ [?w]" idx1] merge_loop_trace [of fs post t1 idx1]
      by simp
    ultimately show ?thesis using pre Inr by (simp add: merge_loop_append)
  qed
qed

text \<open>
  Claim C8. When the store file of a docset is absent at
  \<^verbatim>\<open>Contents/Resources/docSet.dsidx\<close>, the turn of the loop for that docset leaves the
  unified index as it was, adds one warning to the log and raises nothing, and the loop
  goes on with the docsets that remain: the outcome of a batch is the outcome of the
  batch without that docset.
\<close>

theorem missing_store_skipped:
  assumes "fs (docset_db_path d) = Missing"
  shows "merge_docset fs d tr idx
           = (tr @ [Warning (''Database not found for docset: '' @ str d)], Inr idx)
       \<and> merge_loop fs (d # ds) tr idx
           = merge_loop fs ds (tr @ [Warning (''Database not found for docset: '' @ str d)]) idx
       \<and> snd (merge_loop fs (pre @ d # post) tr idx) = snd (merge_loop fs (pre @ post) tr idx)"
  using assms merge_loop_skip_missing [of fs d pre post tr idx] by (simp add: merge_docset_def)

theorem missing_store_skipped_witness:
  "(\<lambda>p. Missing) (docset_db_path (Path ''/d/C.docset'')) = Missing
   \<and> merge_docset (\<lambda>p. Missing) (Path ''/d/C.docset'') [] []
        = ([Warning ''Database not found for docset: /d/C.docset''], Inr [])
   \<and> merge_loop (\<lambda>p. Missing) [Path ''/d/C.docset'', Path ''/d/D.docset''] [] []
        = ([Warning ''Database not found for docset: /d/C.docset'',
            Warning ''Database not found for docset: /d/D.docset''], Inr [])"
proof -
  have s: "str (Path ''/d/C.docset'') = ''/d/C.docset''" by code_simp
  have s': "str (Path ''/d/D.docset'') = ''/d/D.docset''" by code_simp
  have m: "(\<lambda>p. Missing) (docset_db_path (Path ''/d/C.docset'')) = Missing" by simp
  have m': "(\<lambda>p. Missing) (docset_db_path (Path ''/d/D.docset'')) = Missing" by simp
  from missing_store_skipped [of "\<lambda>p. Missing" "Path ''/d/C.docset''" "[]" "[]"
      "[Path ''/d/D.docset'']", OF m]
    missing_store_skipped [of "\<lambda>p. Missing" "Path ''/d/D.docset''"
      "[Warning ''Database not found for docset: /d/C.docset'']" "[]" "[]", OF m']
  show ?thesis by (simp add: s s')
qed

text \<open>
  Claim C2, as the code has it. Nothing in \<^verbatim>\<open>merge_docsets\<close> catches an exception of the
  extraction, the fallback to the legacy query apart. When the store of a docset is
  present and \<^verbatim>\<open>execute\<close> of its modern query raises an \<open>OperationalError\<close>, the legacy
  query is run, and if it raises (in \<^verbatim>\<open>execute\<close> or in \<^verbatim>\<open>fetchall\<close>) its exception leaves
  the whole merge. When \<^verbatim>\<open>execute\<close> of the modern query raises an exception of another
  class, or its \<^verbatim>\<open>fetchall\<close> raises, that exception leaves the whole merge and the
  legacy query is not run. In each case, with the docsets before it merged without a
  failure, the merge ends there, gives no unified index, and the docsets after it are
  not opened.
\<close>

theorem failing_docset_aborts_merge:
  assumes "fs (docset_db_path d) = Database st"
    and "merge_loop fs pre [] [] = (tr, Inr idx)"
  shows "(modern_result st = Execute_raises e \<and> is_OperationalError e
          \<and> (legacy_result st = Execute_raises e' \<or> legacy_result st = Fetch_raises e')
         \<longrightarrow> merge_docsets fs (pre @ d # post)
               = (tr @ [Connect (docset_db_path d), Execute (docset_db_path d) Modern_query,
                        Execute (docset_db_path d) Legacy_query], Inl e'))
       \<and> ((modern_result st = Execute_raises e \<and> \<not> is_OperationalError e)
          \<or> modern_result st = Fetch_raises e
         \<longrightarrow> merge_docsets fs (pre @ d # post)
               = (tr @ [Connect (docset_db_path d), Execute (docset_db_path d) Modern_query],
                  Inl e))"
proof (intro conjI impI)
  assume a: "modern_result st = Execute_raises e \<and> is_OperationalError e
          \<and> (legacy_result st = Execute_raises e' \<or> legacy_result st = Fetch_raises e')"
  then have "fetch_rows (docset_db_path d) st
          = ([Execute (docset_db_path d) Modern_query, Execute (docset_db_path d) Legacy_query],
             Inl e')"
    by (auto simp: fetch_rows_def)
  with assms(1) have "merge_docset fs d tr idx
          = (tr @ [Connect (docset_db_path d), Execute (docset_db_path d) Modern_query,
                   Execute (docset_db_path d) Legacy_query], Inl e')"
    by (simp add: merge_docset_def)
  with assms(2) show "merge_docsets fs (pre @ d # post)
               = (tr @ [Connect (docset_db_path d), Execute (docset_db_path d) Modern_query,
                        Execute (docset_db_path d) Legacy_query], Inl e')"
    by (simp add: merge_docsets_def merge_loop_append)
next
  assume a: "(modern_result st = Execute_raises e \<and> \<not> is_OperationalError e)
          \<or> modern_result st = Fetch_raises e"
  then have "fetch_rows (docset_db_path d) st
          = ([Execute (docset_db_path d) Modern_query], Inl e)"
    by (auto simp: fetch_rows_def)
  with assms(1) have "merge_docset fs d tr idx
          = (tr @ [Connect (docset_db_path d), Execute (docset_db_path d) Modern_query], Inl e)"
    by (simp add: merge_docset_def)
  with assms(2) show "merge_docsets fs (pre @ d # post)
               = (tr @ [Connect (docset_db_path d), Execute (docset_db_path d) Modern_query],
                  Inl e)"
    by (simp add: merge_docsets_def merge_loop_append)
qed

theorem failing_docset_aborts_merge_witness:
  "merge_docsets
     (\<lambda>p. Database \<lparr>modern_result = Execute_raises (OperationalError ''no such table: searchIndex''),
                     legacy_result = Execute_raises (OperationalError ''no such table: ztoken''),
                     legacy_order = (\<lambda>rs. rs)\<rparr>)
     ([] @ Path ''A.docset'' # [Path ''B.docset''])
   = ([] @ [Connect (docset_db_path (Path ''A.docset'')),
            Execute (docset_db_path (Path ''A.docset'')) Modern_query,
            Execute (docset_db_path (Path ''A.docset'')) Legacy_query],
      Inl (OperationalError ''no such table: ztoken''))
   \<and> merge_docsets
     (\<lambda>p. Database \<lparr>modern_result = Fetch_raises (OperationalError ''Could not decode to UTF-8''),
                     legacy_result = Execute_raises (OperationalError ''no such table: ztoken''),
                     legacy_order = (\<lambda>rs. rs)\<rparr>)
     ([] @ Path ''A.docset'' # [Path ''B.docset''])
   = ([] @ [Connect (docset_db_path (Path ''A.docset'')),
            Execute (docset_db_path (Path ''A.docset'')) Modern_query],
      Inl (OperationalError ''Could not decode to UTF-8''))"
  (is "merge_docsets ?fs1 _ = _ \<and> merge_docsets ?fs2 _ = _")
proof -
  let ?st1 = "\<lparr>modern_result = Execute_raises (OperationalError ''no such table: searchIndex''),
               legacy_result = Execute_raises (OperationalError ''no such table: ztoken''),
               legacy_order = (\<lambda>rs. rs)\<rparr>"
  let ?st2 = "\<lparr>modern_result = Fetch_raises (OperationalError ''Could not decode to UTF-8''),
               legacy_result = Execute_raises (OperationalError ''no such table: ztoken''),
               legacy_order = (\<lambda>rs. rs)\<rparr>"
  have 1: "?fs1 (docset_db_path (Path ''A.docset'')) = Database ?st1" by simp
  have 2: "?fs2 (docset_db_path (Path ''A.docset'')) = Database ?st2" by simp
  have 3: "merge_loop ?fs1 [] [] [] = ([], Inr [])" by simp
  have 4: "merge_loop ?fs2 [] [] [] = ([], Inr [])" by simp
  have h1: "modern_result ?st1 = Execute_raises (OperationalError ''no such table: searchIndex'')
      \<and> is_OperationalError (OperationalError ''no such table: searchIndex'')
      \<and> (legacy_result ?st1 = Execute_raises (OperationalError ''no such table: ztoken'')
          \<or> legacy_result ?st1 = Fetch_raises (OperationalError ''no such table: ztoken''))"
    by simp
  have h2: "(modern_result ?st2 = Execute_raises (OperationalError ''Could not decode to UTF-8'')
        \<and> \<not> is_OperationalError (OperationalError ''Could not decode to UTF-8''))
      \<or> modern_result ?st2 = Fetch_raises (OperationalError ''Could not decode to UTF-8'')"
    by simp
  from failing_docset_aborts_merge [OF 1 3, THEN conjunct1, THEN mp, OF h1]
    failing_docset_aborts_merge [OF 2 4, THEN conjunct2, THEN mp, OF h2]
  show ?thesis by (intro conjI)
qed

text \<open>
  Claim C2, as stated, fails. The first docset has a store on which both queries fail,
  the second a store with one entry: the merge ends with the exception of the first
  docset, the second store is never opened and no index comes back.
\<close>

theorem failing_docset_counterexample:
  "merge_docsets
     (\<lambda>p. if p = ''/d/A.docset/Contents/Resources/docSet.dsidx''
          then Database \<lparr>modern_result = Execute_raises (OperationalError ''no such table: searchIndex''),
                         legacy_result = Execute_raises (OperationalError ''no such table: ztoken''),
                         legacy_order = (\<lambda>rs. rs)\<rparr>
          else Database \<lparr>modern_result = Rows [(Some ''foo'', Some ''Method'', Some ''a.html'')],
                         legacy_result = Execute_raises (OperationalError ''no such table: ztoken''),
                         legacy_order = (\<lambda>rs. rs)\<rparr>)
     [Path ''/d/A.docset'', Path ''/d/B.docset'']
   = ([Connect ''/d/A.docset/Contents/Resources/docSet.dsidx'',
       Execute ''/d/A.docset/Contents/Resources/docSet.dsidx'' Modern_query,
       Execute ''/d/A.docset/Contents/Resources/docSet.dsidx'' Legacy_query],
      Inl (OperationalError ''no such table: ztoken''))"
  by code_simp

text \<open>
  Claim C3, as the code has it. The \<^verbatim>\<open>try\<close> block holds \<^verbatim>\<open>execute\<close> of the modern query
  only, and its handler names the class \<open>OperationalError\<close> and does not look at the
  message. The legacy query is run if and only if \<^verbatim>\<open>execute\<close> of the modern query raises
  an \<open>OperationalError\<close>, whatever its message. An exception of another class raised by
  \<^verbatim>\<open>execute\<close>, and every exception raised by \<^verbatim>\<open>fetchall\<close> of the modern query (an
  \<open>OperationalError\<close> too), propagates with no second query.
\<close>

theorem legacy_fallback_iff_operational:
  "(Execute p Legacy_query \<in> set (fst (fetch_rows p st))
      \<longleftrightarrow> (\<exists>e. modern_result st = Execute_raises e \<and> is_OperationalError e))
   \<and> (modern_result st = Execute_raises (OperationalError m)
      \<longrightarrow> Execute p Legacy_query \<in> set (fst (fetch_rows p st)))
   \<and> (modern_result st = Execute_raises e \<and> \<not> is_OperationalError e
      \<longrightarrow> fetch_rows p st = ([Execute p Modern_query], Inl e))
   \<and> (modern_result st = Fetch_raises e
      \<longrightarrow> fetch_rows p st = ([Execute p Modern_query], Inl e))
   \<and> (modern_result st = Rows rows
      \<longrightarrow> fetch_rows p st = ([Execute p Modern_query], Inr rows))"
  by (cases "modern_result st") (auto simp: fetch_rows_def)

theorem legacy_fallback_iff_operational_witness:
  "fetch_rows ''p'' \<lparr>modern_result = Execute_raises (DatabaseError ''file is not a database''),
                     legacy_result = Execute_raises (DatabaseError ''file is not a database''),
                     legacy_order = (\<lambda>rs. rs)\<rparr>
     = ([Execute ''p'' Modern_query], Inl (DatabaseError ''file is not a database''))
   \<and> fetch_rows ''p'' \<lparr>modern_result = Fetch_raises (OperationalError ''Could not decode to UTF-8''),
                     legacy_result = Execute_raises (OperationalError ''no such table: ztoken''),
                     legacy_order = (\<lambda>rs. rs)\<rparr>
     = ([Execute ''p'' Modern_query], Inl (OperationalError ''Could not decode to UTF-8''))
   \<and> Execute ''p'' Legacy_query
       \<in> set (fst (fetch_rows ''p''
                  \<lparr>modern_result = Execute_raises (OperationalError ''no such table: searchIndex''),
                   legacy_result = Execute_raises (OperationalError ''no such table: ztoken''),
                   legacy_order = (\<lambda>rs. rs)\<rparr>))"
  using legacy_fallback_iff_operational
    [of "''p''" "\<lparr>modern_result = Execute_raises (DatabaseError ''file is not a database''),
                  legacy_result = Execute_raises (DatabaseError ''file is not a database''),
                  legacy_order = (\<lambda>rs. rs)\<rparr>"
        "[]" "DatabaseError ''file is not a database''"]
    legacy_fallback_iff_operational
    [of "''p''" "\<lparr>modern_result = Fetch_raises (OperationalError ''Could not decode to UTF-8''),
                  legacy_result = Execute_raises (OperationalError ''no such table: ztoken''),
                  legacy_order = (\<lambda>rs. rs)\<rparr>"
        "[]" "OperationalError ''Could not decode to UTF-8''"]
    legacy_fallback_iff_operational
    [of "''p''" "\<lparr>modern_result = Execute_raises (OperationalError ''no such table: searchIndex''),
                  legacy_result = Execute_raises (OperationalError ''no such table: ztoken''),
                  legacy_order = (\<lambda>rs. rs)\<rparr>"
        "''no such table: searchIndex''" "DatabaseError []"]
  by simp

text \<open>
  Claim C3, as stated, fails. \<^verbatim>\<open>execute\<close> of the modern query fails with the message of a
  locked database, which is an \<open>OperationalError\<close> and no missing table or column: the
  legacy query is run all the same, and it is its result that comes back.
\<close>

theorem locked_store_counterexample:
  "fetch_rows ''p''
     \<lparr>modern_result = Execute_raises (OperationalError ''database is locked''),
      legacy_result = Rows \<lparr>tbl_ztoken = [], tbl_ztokenmetainformation = [],
                            tbl_zfilepath = [], tbl_ztokentype = []\<rparr>,
      legacy_order = (\<lambda>rs. rs)\<rparr>
   = ([Execute ''p'' Modern_query, Execute ''p'' Legacy_query], Inr [])"
  by (simp add: fetch_rows_def legacy_select_def)

section \<open>Properties of the paths and of the argument filter\<close>

lemma endswith_append: "endswith (pre @ suf) suf"
  by (simp add: endswith_def)

lemma endswith_iff: "endswith s suf \<longleftrightarrow> (\<exists>pre. s = pre @ suf)"
proof
  assume "endswith s suf"
  then have "s = take (length s - length suf) s @ suf"
    by (metis append_take_drop_id endswith_def)
  then show "\<exists>pre. s = pre @ suf" ..
next
  assume "\<exists>pre. s = pre @ suf"
  then show "endswith s suf" by (auto simp: endswith_append)
qed

lemma removesuffix_append: "suf \<noteq> [] \<Longrightarrow> removesuffix (pre @ suf) suf = pre"
  by (simp add: removesuffix_def endswith_append)

lemma removesuffix_other: "\<not> endswith s suf \<Longrightarrow> removesuffix s suf = s"
  by (simp add: removesuffix_def)

lemma endswith_last:
  assumes "endswith s (suf @ [c])"
  shows "s \<noteq> [] \<and> last s = c"
proof -
  from assms obtain pre where "s = pre @ suf @ [c]" by (auto simp: endswith_iff)
  then show ?thesis by simp
qed

lemma docset_not_slash: "endswith a ''.docset'' \<Longrightarrow> \<not> endswith a ''/''"
proof
  assume a: "endswith a ''.docset''" and b: "endswith a ''/''"
  have "last a = CHR ''t''" using endswith_last [of a "''.docse''" "CHR ''t''"] a by simp
  moreover have "last a = CHR ''/''" using endswith_last [of a "[]" "CHR ''/''"] b by simp
  ultimately show False by simp
qed


lemma is_docset_arg_slash: "is_docset_arg (a @ ''/'') \<longleftrightarrow> endswith a ''.docset''"
  by (simp add: is_docset_arg_def removesuffix_append)


lemma is_docset_arg_iff:
  "is_docset_arg a \<longleftrightarrow> endswith a ''.docset'' \<or> endswith a ''.docset/''"
proof (cases "endswith a ''/''")
  case True
  then obtain b where a: "a = b @ ''/''" by (auto simp: endswith_iff)
  have "endswith (b @ ''/'') ''.docset/'' \<longleftrightarrow> endswith b ''.docset''"
  proof -
    have "(\<exists>pre. b @ ''/'' = pre @ ''.docset/'') \<longleftrightarrow> (\<exists>pre. b = pre @ ''.docset'')"
    proof -
      have "\<And>pre. b @ ''/'' = pre @ ''.docset/'' \<longleftrightarrow> b = pre @ ''.docset''"
      proof -
        fix pre
        have "pre @ ''.docset/'' = (pre @ ''.docset'') @ ''/''" by simp
        then show "b @ ''/'' = pre @ ''.docset/'' \<longleftrightarrow> b = pre @ ''.docset''"
          by (simp only: append_same_eq)
      qed
      then show ?thesis by simp
    qed
    then show ?thesis by (simp only: endswith_iff)
  qed
  moreover have "\<not> endswith (b @ ''/'') ''.docset''"
    using docset_not_slash [of "b @ ''/''"] by (auto simp: endswith_append)
  ultimately show ?thesis by (simp add: a is_docset_arg_slash)
next
  case False
  have "\<not> endswith a ''.docset/''"
  proof
    assume "endswith a ''.docset/''"
    then obtain pre where "a = pre @ ''.docset/''" by (auto simp: endswith_iff)
    then have "a = (pre @ ''.docset'') @ ''/''" by simp
    then have "endswith a ''/''" by (simp only: endswith_append)
    with False show False ..
  qed
  with False show ?thesis by (simp add: is_docset_arg_def removesuffix_other)
qed






lemma main_filtered:
  "filter is_docset_arg args \<noteq> [] \<Longrightarrow>
     main fs fzf prog args = main fs fzf prog (filter is_docset_arg args)"
proof -
  assume ne: "filter is_docset_arg args \<noteq> []"
  then have "args \<noteq> []" by auto
  with ne show ?thesis by (simp add: main_def)
qed








text \<open>
  Claim C9, as the code has it. The filter keeps an argument when it ends in
  \<^verbatim>\<open>.docset\<close> after one trailing separator, if there is one, is removed. The arguments
  it rejects leave no trace: the run on the arguments is the run on those the filter
  keeps. When it keeps none, the run ends with status 1 and one error record, and no
  store is opened.
\<close>

theorem non_docset_args_excluded:
  "(is_docset_arg a \<longleftrightarrow> endswith a ''.docset'' \<or> endswith a ''.docset/'')
   \<and> (filter is_docset_arg args \<noteq> []
        \<longrightarrow> main fs fzf prog args = main fs fzf prog (filter is_docset_arg args))
   \<and> (filter is_docset_arg args = []
        \<longrightarrow> main fs fzf prog args
              = ([Error (if args = [] then ''Usage: '' @ prog @ '' <docset1> <docset2> ...''
                         else ''No docsets provided.'')], Exit 1)
            \<and> exit_status (snd (main fs fzf prog args)) = 1)"
proof (intro conjI impI)
  show "is_docset_arg a \<longleftrightarrow> endswith a ''.docset'' \<or> endswith a ''.docset/''"
    by (rule is_docset_arg_iff)
next
  assume "filter is_docset_arg args \<noteq> []"
  then show "main fs fzf prog args = main fs fzf prog (filter is_docset_arg args)"
    by (rule main_filtered)
next
  assume e: "filter is_docset_arg args = []"
  then show m: "main fs fzf prog args
              = ([Error (if args = [] then ''Usage: '' @ prog @ '' <docset1> <docset2> ...''
                         else ''No docsets provided.'')], Exit 1)"
    by (simp add: main_def)
  show "exit_status (snd (main fs fzf prog args)) = 1"
    by (simp add: m)
qed

theorem non_docset_args_excluded_witness:
  "filter is_docset_arg [''notes.txt'', ''Foo.docset//''] = []
   \<and> main (\<lambda>p. Missing) (\<lambda>i. Completed 130 []) ''dashp'' [''notes.txt'', ''Foo.docset//'']
       = ([Error ''No docsets provided.''], Exit 1)
   \<and> filter is_docset_arg [''notes.txt'', ''Foo.docset''] = [''Foo.docset'']
   \<and> main (\<lambda>p. Missing) (\<lambda>i. Completed 130 []) ''dashp'' [''notes.txt'', ''Foo.docset'']
       = main (\<lambda>p. Missing) (\<lambda>i. Completed 130 []) ''dashp'' [''Foo.docset'']"
proof -
  have f1: "filter is_docset_arg [''notes.txt'', ''Foo.docset//''] = []" by code_simp
  have f2: "filter is_docset_arg [''notes.txt'', ''Foo.docset''] = [''Foo.docset'']" by code_simp
  note a = non_docset_args_excluded
    [of "[]" "[''notes.txt'', ''Foo.docset//'']" "\<lambda>p. Missing" "\<lambda>i. Completed 130 []" "''dashp''"]
  note b = non_docset_args_excluded
    [of "[]" "[''notes.txt'', ''Foo.docset'']" "\<lambda>p. Missing" "\<lambda>i. Completed 130 []" "''dashp''"]
  have 1: "main (\<lambda>p. Missing) (\<lambda>i. Completed 130 []) ''dashp'' [''notes.txt'', ''Foo.docset//'']
       = ([Error ''No docsets provided.''], Exit 1)"
    using a f1 by simp
  have 2: "main (\<lambda>p. Missing) (\<lambda>i. Completed 130 []) ''dashp'' [''notes.txt'', ''Foo.docset'']
       = main (\<lambda>p. Missing) (\<lambda>i. Completed 130 []) ''dashp'' [''Foo.docset'']"
    using b f2 by simp
  from f1 1 f2 2 show ?thesis by (intro conjI)
qed

text \<open>
  Claim C9, as stated, fails. The argument \<^verbatim>\<open>Foo.docset/\<close> does not end in
  \<^verbatim>\<open>.docset\<close>, yet the filter keeps it and the run goes on to look for its store.
\<close>

theorem trailing_separator_counterexample:
  "\<not> endswith ''Foo.docset/'' ''.docset''
   \<and> filter is_docset_arg [''Foo.docset/''] = [''Foo.docset/'']
   \<and> main (\<lambda>p. Missing) (\<lambda>i. Completed 130 []) ''dashp'' [''Foo.docset/'']
       = ([Warning ''Database not found for docset: Foo.docset'', Run_selector []], Exit 1)"
  by code_simp



section \<open>Properties of the legacy query\<close>

lemma concat_map_if:
  "concat (map (\<lambda>x. if P x then g x else []) xs) = concat (map g (filter P xs))"
  by (induction xs) auto

lemma concat_map_if_single:
  "concat (map (\<lambda>x. if P x then [g x] else []) xs) = map g (filter P xs)"
  by (induction xs) auto

lemma concat_map_single:
  "(\<And>t. t \<in> set ts \<Longrightarrow> rows t = [g t]) \<Longrightarrow> concat (map rows ts) = map g ts"
  by (induction ts) auto

lemma url_cases:
  "url zp za =
     (case zp of
        None \<Rightarrow> None
      | Some base \<Rightarrow>
          (case za of
             None \<Rightarrow> Some base
           | Some anchor \<Rightarrow> if anchor = [] then Some base else Some (base @ ''#'' @ anchor)))"
  by (simp add: url_def sql_concat_def sql_ifnull_def sql_nullif_def split: option.splits)

lemma token_rows_iff:
  "r \<in> set (token_rows db t) \<longleftrightarrow>
     (\<exists>m f ty. m \<in> set (tbl_ztokenmetainformation db) \<and> Some (meta_z_pk m) = zmetainformation t
        \<and> f \<in> set (tbl_zfilepath db) \<and> Some (file_z_pk f) = zfile m
        \<and> ty \<in> set (tbl_ztokentype db) \<and> Some (type_z_pk ty) = ztokentype t
        \<and> r = (ztokenname t, ztypename ty, url (zpath f) (zanchor m)))"
  by (auto simp: token_rows_def split: if_splits)

lemma token_rows_filters:
  "token_rows db t =
     concat (map (\<lambda>m. concat (map (\<lambda>f. map (\<lambda>ty. (ztokenname t, ztypename ty, url (zpath f) (zanchor m)))
                 (filter (\<lambda>ty. Some (type_z_pk ty) = ztokentype t) (tbl_ztokentype db)))
             (filter (\<lambda>f. Some (file_z_pk f) = zfile m) (tbl_zfilepath db))))
       (filter (\<lambda>m. Some (meta_z_pk m) = zmetainformation t) (tbl_ztokenmetainformation db)))"
  unfolding token_rows_def by (simp only: concat_map_if_single concat_map_if)

lemma token_rows_unique:
  assumes "filter (\<lambda>m. Some (meta_z_pk m) = zmetainformation t) (tbl_ztokenmetainformation db) = [m]"
    and "filter (\<lambda>f. Some (file_z_pk f) = zfile m) (tbl_zfilepath db) = [f]"
    and "filter (\<lambda>ty. Some (type_z_pk ty) = ztokentype t) (tbl_ztokentype db) = [ty]"
  shows "token_rows db t = [(ztokenname t, ztypename ty, url (zpath f) (zanchor m))]"
  unfolding token_rows_filters assms(1) using assms(2,3) by simp

lemma token_rows_unmatched:
  assumes "filter (\<lambda>m. Some (meta_z_pk m) = zmetainformation t) (tbl_ztokenmetainformation db) = []
     \<or> filter (\<lambda>ty. Some (type_z_pk ty) = ztokentype t) (tbl_ztokentype db) = []
     \<or> (\<forall>m \<in> set (tbl_ztokenmetainformation db). Some (meta_z_pk m) = zmetainformation t
          \<longrightarrow> filter (\<lambda>f. Some (file_z_pk f) = zfile m) (tbl_zfilepath db) = [])"
  shows "token_rows db t = []"
proof (cases "token_rows db t")
  case Nil
  then show ?thesis .
next
  case (Cons r rs)
  then have "r \<in> set (token_rows db t)" by simp
  then obtain m f ty where
    m: "m \<in> set (tbl_ztokenmetainformation db)" "Some (meta_z_pk m) = zmetainformation t" and
    f: "f \<in> set (tbl_zfilepath db)" "Some (file_z_pk f) = zfile m" and
    ty: "ty \<in> set (tbl_ztokentype db)" "Some (type_z_pk ty) = ztokentype t"
    unfolding token_rows_iff by blast
  from m have 1: "m \<in> set (filter (\<lambda>m. Some (meta_z_pk m) = zmetainformation t)
                   (tbl_ztokenmetainformation db))" by simp
  from ty have 2: "ty \<in> set (filter (\<lambda>ty. Some (type_z_pk ty) = ztokentype t)
                   (tbl_ztokentype db))" by simp
  from f have 3: "f \<in> set (filter (\<lambda>f. Some (file_z_pk f) = zfile m)
                   (tbl_zfilepath db))" by simp
  from assms consider
    (a) "filter (\<lambda>m. Some (meta_z_pk m) = zmetainformation t) (tbl_ztokenmetainformation db) = []"
    | (b) "filter (\<lambda>ty. Some (type_z_pk ty) = ztokentype t) (tbl_ztokentype db) = []"
    | (c) "\<forall>m \<in> set (tbl_ztokenmetainformation db). Some (meta_z_pk m) = zmetainformation t
          \<longrightarrow> filter (\<lambda>f. Some (file_z_pk f) = zfile m) (tbl_zfilepath db) = []"
    by blast
  then have False
  proof cases
    case a
    with 1 show False by simp
  next
    case b
    with 2 show False by simp
  next
    case c
    with m have "filter (\<lambda>f. Some (file_z_pk f) = zfile m) (tbl_zfilepath db) = []" by blast
    with 3 show False by simp
  qed
  then show ?thesis ..
qed

lemma legacy_select_iff:
  "r \<in> set (legacy_select db) \<longleftrightarrow>
     (\<exists>t m f ty. t \<in> set (tbl_ztoken db)
        \<and> m \<in> set (tbl_ztokenmetainformation db) \<and> Some (meta_z_pk m) = zmetainformation t
        \<and> f \<in> set (tbl_zfilepath db) \<and> Some (file_z_pk f) = zfile m
        \<and> ty \<in> set (tbl_ztokentype db) \<and> Some (type_z_pk ty) = ztokentype t
        \<and> r = (ztokenname t, ztypename ty, url (zpath f) (zanchor m)))"
  unfolding legacy_select_def by (auto simp: token_rows_iff)

lemma legacy_select_all_unique:
  assumes "\<And>t. t \<in> set (tbl_ztoken db) \<Longrightarrow>
     \<exists>m f ty. filter (\<lambda>m. Some (meta_z_pk m) = zmetainformation t) (tbl_ztokenmetainformation db) = [m]
       \<and> filter (\<lambda>f. Some (file_z_pk f) = zfile m) (tbl_zfilepath db) = [f]
       \<and> filter (\<lambda>ty. Some (type_z_pk ty) = ztokentype t) (tbl_ztokentype db) = [ty]"
  shows "legacy_select db =
     map (\<lambda>t. (ztokenname t,
               ztypename (hd (filter (\<lambda>ty. Some (type_z_pk ty) = ztokentype t) (tbl_ztokentype db))),
               url (zpath (hd (filter (\<lambda>f. Some (file_z_pk f)
                      = zfile (hd (filter (\<lambda>m. Some (meta_z_pk m) = zmetainformation t)
                                  (tbl_ztokenmetainformation db)))) (tbl_zfilepath db))))
                   (zanchor (hd (filter (\<lambda>m. Some (meta_z_pk m) = zmetainformation t)
                                  (tbl_ztokenmetainformation db))))))
         (tbl_ztoken db)"
  unfolding legacy_select_def
proof (rule concat_map_single)
  fix t assume "t \<in> set (tbl_ztoken db)"
  from assms [OF this] obtain m f ty where
    m: "filter (\<lambda>m. Some (meta_z_pk m) = zmetainformation t) (tbl_ztokenmetainformation db) = [m]" and
    f: "filter (\<lambda>f. Some (file_z_pk f) = zfile m) (tbl_zfilepath db) = [f]" and
    ty: "filter (\<lambda>ty. Some (type_z_pk ty) = ztokentype t) (tbl_ztokentype db) = [ty]"
    by blast
  show "token_rows db t
        = [(ztokenname t,
               ztypename (hd (filter (\<lambda>ty. Some (type_z_pk ty) = ztokentype t) (tbl_ztokentype db))),
               url (zpath (hd (filter (\<lambda>f. Some (file_z_pk f)
                      = zfile (hd (filter (\<lambda>m. Some (meta_z_pk m) = zmetainformation t)
                                  (tbl_ztokenmetainformation db)))) (tbl_zfilepath db))))
                   (zanchor (hd (filter (\<lambda>m. Some (meta_z_pk m) = zmetainformation t)
                                  (tbl_ztokenmetainformation db)))))]"
    unfolding token_rows_unique [OF m f ty] m by (simp add: f ty)
qed

text \<open>
  Claim C6, as the code has it. The legacy query is an inner join with no \<^verbatim>\<open>ORDER BY\<close>.
  For a store whose modern \<^verbatim>\<open>execute\<close> raises an \<open>OperationalError\<close> and whose legacy
  query gives rows, with an engine that returns the rows of the join in some order, the
  extraction yields, as a multiset, the rows of every token put together: no order is
  promised. A row is yielded exactly when it comes from a token together with a
  metainformation row, a file-path row and a token-type row that the references of the
  token match. A token each of whose references matches exactly one row gives exactly
  one row; a token with a reference that matches no row (NULL or dangling) gives none.
  So when every token matches uniquely there is one row per token. In a row the path is
  the base path when the anchor is NULL or empty, the base path, \<^verbatim>\<open>#\<close> and the anchor
  when the anchor is not empty, and NULL when the base path is NULL.
\<close>

theorem legacy_rows:
  assumes "modern_result st = Execute_raises e" and "is_OperationalError e"
    and "legacy_result st = Rows db"
    and "mset (legacy_order st (legacy_select db)) = mset (legacy_select db)"
  shows "(\<exists>rows. fetch_rows p st = ([Execute p Modern_query, Execute p Legacy_query], Inr rows)
          \<and> mset rows = (\<Sum>t\<leftarrow>tbl_ztoken db. mset (token_rows db t))
          \<and> (\<forall>r. r \<in> set rows \<longleftrightarrow>
                (\<exists>t m f ty. t \<in> set (tbl_ztoken db)
                   \<and> m \<in> set (tbl_ztokenmetainformation db) \<and> Some (meta_z_pk m) = zmetainformation t
                   \<and> f \<in> set (tbl_zfilepath db) \<and> Some (file_z_pk f) = zfile m
                   \<and> ty \<in> set (tbl_ztokentype db) \<and> Some (type_z_pk ty) = ztokentype t
                   \<and> r = (ztokenname t, ztypename ty, url (zpath f) (zanchor m))))
          \<and> ((\<forall>t \<in> set (tbl_ztoken db).
                \<exists>m f ty.
                  filter (\<lambda>m. Some (meta_z_pk m) = zmetainformation t) (tbl_ztokenmetainformation db) = [m]
                  \<and> filter (\<lambda>f. Some (file_z_pk f) = zfile m) (tbl_zfilepath db) = [f]
                  \<and> filter (\<lambda>ty. Some (type_z_pk ty) = ztokentype t) (tbl_ztokentype db) = [ty])
              \<longrightarrow> length rows = length (tbl_ztoken db)
                \<and> mset rows =
                    mset (map (\<lambda>t. (ztokenname t,
                      ztypename (hd (filter (\<lambda>ty. Some (type_z_pk ty) = ztokentype t) (tbl_ztokentype db))),
                      url (zpath (hd (filter (\<lambda>f. Some (file_z_pk f)
                             = zfile (hd (filter (\<lambda>m. Some (meta_z_pk m) = zmetainformation t)
                                         (tbl_ztokenmetainformation db)))) (tbl_zfilepath db))))
                          (zanchor (hd (filter (\<lambda>m. Some (meta_z_pk m) = zmetainformation t)
                                         (tbl_ztokenmetainformation db))))))
                      (tbl_ztoken db))))
   \<and> (filter (\<lambda>m. Some (meta_z_pk m) = zmetainformation t) (tbl_ztokenmetainformation db) = [m]
       \<and> filter (\<lambda>f. Some (file_z_pk f) = zfile m) (tbl_zfilepath db) = [f]
       \<and> filter (\<lambda>ty. Some (type_z_pk ty) = ztokentype t) (tbl_ztokentype db) = [ty]
      \<longrightarrow> token_rows db t = [(ztokenname t, ztypename ty, url (zpath f) (zanchor m))])
   \<and> (filter (\<lambda>m. Some (meta_z_pk m) = zmetainformation t) (tbl_ztokenmetainformation db) = []
       \<or> filter (\<lambda>ty. Some (type_z_pk ty) = ztokentype t) (tbl_ztokentype db) = []
       \<or> (\<forall>m \<in> set (tbl_ztokenmetainformation db). Some (meta_z_pk m) = zmetainformation t
            \<longrightarrow> filter (\<lambda>f. Some (file_z_pk f) = zfile m) (tbl_zfilepath db) = [])
      \<longrightarrow> token_rows db t = [])
   \<and> (zmetainformation t = None \<or> ztokentype t = None \<longrightarrow> token_rows db t = [])
   \<and> url (Some base) None = Some base
   \<and> url (Some base) (Some []) = Some base
   \<and> (anchor \<noteq> [] \<longrightarrow> url (Some base) (Some anchor) = Some (base @ ''#'' @ anchor))
   \<and> url None za = None"
proof (intro conjI)
  let ?rows = "legacy_order st (legacy_select db)"
  have run: "fetch_rows p st = ([Execute p Modern_query, Execute p Legacy_query], Inr ?rows)"
    using assms(1-3) by (simp add: fetch_rows_def)
  have bag: "mset ?rows = (\<Sum>t\<leftarrow>tbl_ztoken db. mset (token_rows db t))"
  proof -
    have "mset ?rows = mset (legacy_select db)" by (rule assms(4))
    also have "\<dots> = (\<Sum>t\<leftarrow>tbl_ztoken db. mset (token_rows db t))"
      unfolding legacy_select_def mset_concat by (simp add: comp_def)
    finally show ?thesis .
  qed
  have "set ?rows = set (legacy_select db)"
    using assms(4) by (rule mset_eq_setD)
  then have mem: "\<forall>r. r \<in> set ?rows \<longleftrightarrow>
                (\<exists>t m f ty. t \<in> set (tbl_ztoken db)
                   \<and> m \<in> set (tbl_ztokenmetainformation db) \<and> Some (meta_z_pk m) = zmetainformation t
                   \<and> f \<in> set (tbl_zfilepath db) \<and> Some (file_z_pk f) = zfile m
                   \<and> ty \<in> set (tbl_ztokentype db) \<and> Some (type_z_pk ty) = ztokentype t
                   \<and> r = (ztokenname t, ztypename ty, url (zpath f) (zanchor m)))"
    by (simp only: legacy_select_iff) blast
  have uniq: "(\<forall>t \<in> set (tbl_ztoken db).
                \<exists>m f ty.
                  filter (\<lambda>m. Some (meta_z_pk m) = zmetainformation t) (tbl_ztokenmetainformation db) = [m]
                  \<and> filter (\<lambda>f. Some (file_z_pk f) = zfile m) (tbl_zfilepath db) = [f]
                  \<and> filter (\<lambda>ty. Some (type_z_pk ty) = ztokentype t) (tbl_ztokentype db) = [ty])
              \<longrightarrow> length ?rows = length (tbl_ztoken db)
                \<and> mset ?rows =
                    mset (map (\<lambda>t. (ztokenname t,
                      ztypename (hd (filter (\<lambda>ty. Some (type_z_pk ty) = ztokentype t) (tbl_ztokentype db))),
                      url (zpath (hd (filter (\<lambda>f. Some (file_z_pk f)
                             = zfile (hd (filter (\<lambda>m. Some (meta_z_pk m) = zmetainformation t)
                                         (tbl_ztokenmetainformation db)))) (tbl_zfilepath db))))
                          (zanchor (hd (filter (\<lambda>m. Some (meta_z_pk m) = zmetainformation t)
                                         (tbl_ztokenmetainformation db))))))
                      (tbl_ztoken db))"
  proof (intro impI conjI)
    assume u: "\<forall>t \<in> set (tbl_ztoken db).
                \<exists>m f ty.
                  filter (\<lambda>m. Some (meta_z_pk m) = zmetainformation t) (tbl_ztokenmetainformation db) = [m]
                  \<and> filter (\<lambda>f. Some (file_z_pk f) = zfile m) (tbl_zfilepath db) = [f]
                  \<and> filter (\<lambda>ty. Some (type_z_pk ty) = ztokentype t) (tbl_ztokentype db) = [ty]"
    have eq: "legacy_select db =
             map (\<lambda>t. (ztokenname t,
               ztypename (hd (filter (\<lambda>ty. Some (type_z_pk ty) = ztokentype t) (tbl_ztokentype db))),
               url (zpath (hd (filter (\<lambda>f. Some (file_z_pk f)
                      = zfile (hd (filter (\<lambda>m. Some (meta_z_pk m) = zmetainformation t)
                                  (tbl_ztokenmetainformation db)))) (tbl_zfilepath db))))
                   (zanchor (hd (filter (\<lambda>m. Some (meta_z_pk m) = zmetainformation t)
                                  (tbl_ztokenmetainformation db))))))
               (tbl_ztoken db)"
      by (rule legacy_select_all_unique) (use u in blast)
    have "length ?rows = length (legacy_select db)"
      using assms(4) by (rule mset_eq_length)
    also have "\<dots> = length (tbl_ztoken db)" by (subst eq) (simp only: length_map)
    finally show "length ?rows = length (tbl_ztoken db)" .
    show "mset ?rows =
                    mset (map (\<lambda>t. (ztokenname t,
                      ztypename (hd (filter (\<lambda>ty. Some (type_z_pk ty) = ztokentype t) (tbl_ztokentype db))),
                      url (zpath (hd (filter (\<lambda>f. Some (file_z_pk f)
                             = zfile (hd (filter (\<lambda>m. Some (meta_z_pk m) = zmetainformation t)
                                         (tbl_ztokenmetainformation db)))) (tbl_zfilepath db))))
                          (zanchor (hd (filter (\<lambda>m. Some (meta_z_pk m) = zmetainformation t)
                                         (tbl_ztokenmetainformation db))))))
                      (tbl_ztoken db))"
      unfolding assms(4) by (subst eq) (rule refl)
  qed
  from run bag mem uniq
  show "\<exists>rows. fetch_rows p st = ([Execute p Modern_query, Execute p Legacy_query], Inr rows)
          \<and> mset rows = (\<Sum>t\<leftarrow>tbl_ztoken db. mset (token_rows db t))
          \<and> (\<forall>r. r \<in> set rows \<longleftrightarrow>
                (\<exists>t m f ty. t \<in> set (tbl_ztoken db)
                   \<and> m \<in> set (tbl_ztokenmetainformation db) \<and> Some (meta_z_pk m) = zmetainformation t
                   \<and> f \<in> set (tbl_zfilepath db) \<and> Some (file_z_pk f) = zfile m
                   \<and> ty \<in> set (tbl_ztokentype db) \<and> Some (type_z_pk ty) = ztokentype t
                   \<and> r = (ztokenname t, ztypename ty, url (zpath f) (zanchor m))))
          \<and> ((\<forall>t \<in> set (tbl_ztoken db).
                \<exists>m f ty.
                  filter (\<lambda>m. Some (meta_z_pk m) = zmetainformation t) (tbl_ztokenmetainformation db) = [m]
                  \<and> filter (\<lambda>f. Some (file_z_pk f) = zfile m) (tbl_zfilepath db) = [f]
                  \<and> filter (\<lambda>ty. Some (type_z_pk ty) = ztokentype t) (tbl_ztokentype db) = [ty])
              \<longrightarrow> length rows = length (tbl_ztoken db)
                \<and> mset rows =
                    mset (map (\<lambda>t. (ztokenname t,
                      ztypename (hd (filter (\<lambda>ty. Some (type_z_pk ty) = ztokentype t) (tbl_ztokentype db))),
                      url (zpath (hd (filter (\<lambda>f. Some (file_z_pk f)
                             = zfile (hd (filter (\<lambda>m. Some (meta_z_pk m) = zmetainformation t)
                                         (tbl_ztokenmetainformation db)))) (tbl_zfilepath db))))
                          (zanchor (hd (filter (\<lambda>m. Some (meta_z_pk m) = zmetainformation t)
                                         (tbl_ztokenmetainformation db))))))
                      (tbl_ztoken db)))"
    by (intro exI [of _ ?rows] conjI)
next
  show "filter (\<lambda>m. Some (meta_z_pk m) = zmetainformation t) (tbl_ztokenmetainformation db) = [m]
       \<and> filter (\<lambda>f. Some (file_z_pk f) = zfile m) (tbl_zfilepath db) = [f]
       \<and> filter (\<lambda>ty. Some (type_z_pk ty) = ztokentype t) (tbl_ztokentype db) = [ty]
      \<longrightarrow> token_rows db t = [(ztokenname t, ztypename ty, url (zpath f) (zanchor m))]"
    using token_rows_unique [of t db m f ty] by blast
next
  show "filter (\<lambda>m. Some (meta_z_pk m) = zmetainformation t) (tbl_ztokenmetainformation db) = []
       \<or> filter (\<lambda>ty. Some (type_z_pk ty) = ztokentype t) (tbl_ztokentype db) = []
       \<or> (\<forall>m \<in> set (tbl_ztokenmetainformation db). Some (meta_z_pk m) = zmetainformation t
            \<longrightarrow> filter (\<lambda>f. Some (file_z_pk f) = zfile m) (tbl_zfilepath db) = [])
      \<longrightarrow> token_rows db t = []"
    using token_rows_unmatched [of t db] by blast
next
  show "zmetainformation t = None \<or> ztokentype t = None \<longrightarrow> token_rows db t = []"
  proof
    assume "zmetainformation t = None \<or> ztokentype t = None"
    then have "filter (\<lambda>m. Some (meta_z_pk m) = zmetainformation t) (tbl_ztokenmetainformation db) = []
       \<or> filter (\<lambda>ty. Some (type_z_pk ty) = ztokentype t) (tbl_ztokentype db) = []"
      by auto
    then show "token_rows db t = []" using token_rows_unmatched [of t db] by blast
  qed
next
  show "url (Some base) None = Some base" by (simp add: url_cases)
  show "url (Some base) (Some []) = Some base" by (simp add: url_cases)
  show "url None za = None" by (simp add: url_cases)
  show "anchor \<noteq> [] \<longrightarrow> url (Some base) (Some anchor) = Some (base @ ''#'' @ anchor)"
    by (simp add: url_cases)
qed

theorem legacy_rows_witness:
  "fetch_rows ''p''
     \<lparr>modern_result = Execute_raises (OperationalError ''no such table: searchIndex''),
      legacy_result = Rows
        \<lparr>tbl_ztoken = [\<lparr>ztokenname = Some ''bar'', zmetainformation = Some 1, ztokentype = Some 1\<rparr>,
                       \<lparr>ztokenname = Some ''lost'', zmetainformation = None, ztokentype = Some 1\<rparr>,
                       \<lparr>ztokenname = Some ''baz'', zmetainformation = Some 2, ztokentype = Some 1\<rparr>],
         tbl_ztokenmetainformation =
           [\<lparr>meta_z_pk = 1, zfile = Some 1, zanchor = Some ''anchor1''\<rparr>,
            \<lparr>meta_z_pk = 2, zfile = Some 1, zanchor = None\<rparr>],
         tbl_zfilepath = [\<lparr>file_z_pk = 1, zpath = Some ''b.html''\<rparr>],
         tbl_ztokentype = [\<lparr>type_z_pk = 1, ztypename = Some ''Class''\<rparr>]\<rparr>,
      legacy_order = rev\<rparr>
   = ([Execute ''p'' Modern_query, Execute ''p'' Legacy_query],
      Inr [(Some ''baz'', Some ''Class'', Some ''b.html''),
           (Some ''bar'', Some ''Class'', Some ''b.html#anchor1'')])
   \<and> mset [(Some ''baz'', Some ''Class'', Some ''b.html''),
           (Some ''bar'', Some ''Class'', Some ''b.html#anchor1'')]
       = mset [(Some ''bar'', Some ''Class'', Some ''b.html#anchor1'')] + {#}
           + mset [(Some ''baz'', Some ''Class'', Some ''b.html'')]"
  (is "fetch_rows ''p'' ?st = (?tr, Inr ?rows) \<and> _")
proof -
  let ?db = "\<lparr>tbl_ztoken = [\<lparr>ztokenname = Some ''bar'', zmetainformation = Some 1, ztokentype = Some 1\<rparr>,
                       \<lparr>ztokenname = Some ''lost'', zmetainformation = None, ztokentype = Some 1\<rparr>,
                       \<lparr>ztokenname = Some ''baz'', zmetainformation = Some 2, ztokentype = Some 1\<rparr>],
         tbl_ztokenmetainformation =
           [\<lparr>meta_z_pk = 1, zfile = Some 1, zanchor = Some ''anchor1''\<rparr>,
            \<lparr>meta_z_pk = 2, zfile = Some 1, zanchor = None\<rparr>],
         tbl_zfilepath = [\<lparr>file_z_pk = 1, zpath = Some ''b.html''\<rparr>],
         tbl_ztokentype = [\<lparr>type_z_pk = 1, ztypename = Some ''Class''\<rparr>]\<rparr>"
  let ?t1 = "\<lparr>ztokenname = Some ''bar'', zmetainformation = Some 1, ztokentype = Some 1\<rparr>"
  let ?t2 = "\<lparr>ztokenname = Some ''lost'', zmetainformation = None, ztokentype = Some 1\<rparr>"
  let ?t3 = "\<lparr>ztokenname = Some ''baz'', zmetainformation = Some 2, ztokentype = Some 1\<rparr>"
  have h1: "modern_result ?st = Execute_raises (OperationalError ''no such table: searchIndex'')"
    by simp
  have h2: "is_OperationalError (OperationalError ''no such table: searchIndex'')" by simp
  have h3: "legacy_result ?st = Rows ?db" by simp
  have h4: "mset (legacy_order ?st (legacy_select ?db)) = mset (legacy_select ?db)" by simp
  note inst = legacy_rows [OF h1 h2 h3 h4, where p = "''p''"]
  have r1: "token_rows ?db ?t1 = [(Some ''bar'', Some ''Class'', Some ''b.html#anchor1'')]"
    using inst [where t = ?t1 and m = "\<lparr>meta_z_pk = 1, zfile = Some 1, zanchor = Some ''anchor1''\<rparr>"
        and f = "\<lparr>file_z_pk = 1, zpath = Some ''b.html''\<rparr>"
        and ty = "\<lparr>type_z_pk = 1, ztypename = Some ''Class''\<rparr>",
      THEN conjunct2, THEN conjunct1]
    by (simp add: url_cases)
  have r2: "token_rows ?db ?t2 = []"
    using inst [where t = ?t2, THEN conjunct2, THEN conjunct2, THEN conjunct2, THEN conjunct1]
    by simp
  have r3: "token_rows ?db ?t3 = [(Some ''baz'', Some ''Class'', Some ''b.html'')]"
    using inst [where t = ?t3 and m = "\<lparr>meta_z_pk = 2, zfile = Some 1, zanchor = None\<rparr>"
        and f = "\<lparr>file_z_pk = 1, zpath = Some ''b.html''\<rparr>"
        and ty = "\<lparr>type_z_pk = 1, ztypename = Some ''Class''\<rparr>",
      THEN conjunct2, THEN conjunct1]
    by (simp add: url_cases)
  have sel: "legacy_select ?db = [(Some ''bar'', Some ''Class'', Some ''b.html#anchor1''),
                                   (Some ''baz'', Some ''Class'', Some ''b.html'')]"
    by (simp add: legacy_select_def r1 r2 r3)
  have run: "fetch_rows ''p'' ?st = (?tr, Inr ?rows)"
    by (simp add: fetch_rows_def sel)
  from inst [THEN conjunct1] obtain rows where
    a: "fetch_rows ''p'' ?st = (?tr, Inr rows)" and
    b: "mset rows = (\<Sum>t\<leftarrow>tbl_ztoken ?db. mset (token_rows ?db t))"
    by blast
  from a run have "rows = ?rows" by simp
  with b have "mset ?rows = (\<Sum>t\<leftarrow>tbl_ztoken ?db. mset (token_rows ?db t))" by simp
  then have bag: "mset ?rows = mset [(Some ''bar'', Some ''Class'', Some ''b.html#anchor1'')] + {#}
           + mset [(Some ''baz'', Some ''Class'', Some ''b.html'')]"
    by (simp add: r1 r2 r3)
  from run bag show ?thesis by (intro conjI)
qed

text \<open>
  Claim C6, as stated, fails. A store with the legacy schema holds one token whose
  reference to its metainformation is NULL: the join drops the token and the extraction
  yields no row.
\<close>

theorem unmatched_token_counterexample:
  "fetch_rows ''p''
     \<lparr>modern_result = Execute_raises (OperationalError ''no such table: searchIndex''),
      legacy_result = Rows
        \<lparr>tbl_ztoken = [\<lparr>ztokenname = Some ''bar'', zmetainformation = None, ztokentype = Some 1\<rparr>],
         tbl_ztokenmetainformation = [\<lparr>meta_z_pk = 1, zfile = Some 1, zanchor = None\<rparr>],
         tbl_zfilepath = [\<lparr>file_z_pk = 1, zpath = Some ''b.html''\<rparr>],
         tbl_ztokentype = [\<lparr>type_z_pk = 1, ztypename = Some ''Class''\<rparr>]\<rparr>,
      legacy_order = (\<lambda>rs. rs)\<rparr>
   = ([Execute ''p'' Modern_query, Execute ''p'' Legacy_query], Inr [])"
  by (simp add: fetch_rows_def legacy_select_def token_rows_def)

section \<open>Properties of the exit status\<close>

lemma fetch_rows_no_print: "Print q \<notin> set (fst (fetch_rows p st))"
  by (cases "modern_result st") (auto simp: fetch_rows_def)

lemma merge_docset_no_print:
  assumes "merge_docset fs d tr idx = (tr', r)" and "Print q \<in> set tr'"
  shows "Print q \<in> set tr"
proof (cases "fs (docset_db_path d)")
  case Missing
  with assms show ?thesis by (auto simp: merge_docset_def)
next
  case (Unopenable e)
  with assms show ?thesis by (auto simp: merge_docset_def)
next
  case (Database st)
  obtain evs r' where f: "fetch_rows (docset_db_path d) st = (evs, r')"
    by (cases "fetch_rows (docset_db_path d) st")
  then have "Print q \<notin> set evs"
    using fetch_rows_no_print [of q "docset_db_path d" st] by simp
  moreover have "tr' = tr @ Connect (docset_db_path d) # evs"
    using assms(1) Database f by (cases r') (simp_all add: merge_docset_def)
  ultimately show ?thesis using assms(2) by auto
qed

lemma merge_loop_no_print:
  "merge_loop fs ds tr idx = (tr', r) \<Longrightarrow> Print q \<in> set tr' \<Longrightarrow> Print q \<in> set tr"
proof (induction ds arbitrary: tr idx)
  case Nil
  then show ?case by simp
next
  case (Cons d ds)
  obtain t1 r1 where one: "merge_docset fs d tr idx = (t1, r1)"
    by (cases "merge_docset fs d tr idx")
  show ?case
  proof (cases r1)
    case (Inl e)
    with Cons.prems one have "tr' = t1" by simp
    with Cons.prems(2) merge_docset_no_print [OF one] show ?thesis by simp
  next
    case (Inr idx1)
    with Cons.prems(1) one have "merge_loop fs ds t1 idx1 = (tr', r)" by simp
    from Cons.IH [OF this Cons.prems(2)] merge_docset_no_print [OF one] show ?thesis by simp
  qed
qed

lemma merge_docsets_no_print: "merge_docsets fs ds = (tr, r) \<Longrightarrow> Print q \<notin> set tr"
  using merge_loop_no_print [of fs ds "[]" "[]" tr r q] by (auto simp: merge_docsets_def)

lemma launch_fzf_cases:
  assumes "launch_fzf fzf db = (tr, r)"
  shows "Print q \<notin> set tr \<and> Run_selector (fzf_input db) \<in> set tr
       \<and> (\<forall>rc. r = Inl (Exit rc)
            \<longrightarrow> (\<exists>out. fzf (fzf_input db) = Completed rc out \<and> rc \<noteq> 0 \<and> rc \<noteq> 130))
       \<and> (\<forall>s. r = Inr (Some s) \<longrightarrow> s \<noteq> [])"
proof (cases "fzf (fzf_input db)")
  case (Raises e)
  with assms show ?thesis by (auto simp: launch_fzf_def split: if_splits)
next
  case (Completed rc out)
  with assms show ?thesis by (auto simp: launch_fzf_def split: if_splits)
qed

lemma launch_fzf_failed:
  "fzf (fzf_input db) = Completed rc out \<Longrightarrow> rc \<noteq> 0 \<Longrightarrow> rc \<noteq> 130 \<Longrightarrow>
     snd (launch_fzf fzf db) = Inl (Exit rc)"
  by (simp add: launch_fzf_def)

lemma low_byte_nonzero: "- 256 < (rc::int) \<Longrightarrow> rc < 256 \<Longrightarrow> rc \<noteq> 0 \<Longrightarrow> rc mod 256 \<noteq> 0"
  by presburger

lemma main_exit_summary:
  assumes "main fs fzf prog args = (tr, t)"
    and "\<forall>inp rc out. fzf inp = Completed rc out \<longrightarrow> - 256 < rc \<and> rc < 256"
  shows "(exit_status t = 0 \<longleftrightarrow> (\<exists>q. Print q \<in> set tr))
       \<and> (exit_status t \<noteq> 0 \<and> exit_status t \<noteq> 1
            \<longrightarrow> (\<exists>inp rc out. Run_selector inp \<in> set tr \<and> fzf inp = Completed rc out
                   \<and> rc \<noteq> 0 \<and> rc \<noteq> 130 \<and> t = Exit rc))
       \<and> (\<forall>tr0 db rc out. filter is_docset_arg args \<noteq> []
            \<and> merge_docsets fs (map Path (filter is_docset_arg args)) = (tr0, Inr db)
            \<and> fzf (fzf_input db) = Completed rc out \<and> rc \<noteq> 0 \<and> rc \<noteq> 130
            \<longrightarrow> t = Exit rc)"
proof (cases "filter is_docset_arg args = []")
  case True
  then have "main fs fzf prog args
      = ([Error (if args = [] then ''Usage: '' @ prog @ '' <docset1> <docset2> ...''
                 else ''No docsets provided.'')], Exit 1)"
    by (simp add: main_def)
  with assms(1) True show ?thesis by auto
next
  case False
  then have ne: "args \<noteq> []" by auto
  let ?ds = "map Path (filter is_docset_arg args)"
  obtain tr0 r0 where m: "merge_docsets fs ?ds = (tr0, r0)"
    by (cases "merge_docsets fs ?ds")
  have np0: "\<And>q. Print q \<notin> set tr0" using merge_docsets_no_print [OF m] .
  show ?thesis
  proof (cases r0)
    case (Inl e)
    with assms(1) False ne m have "tr = tr0" "t = Uncaught e" by (simp_all add: main_def)
    with np0 m Inl False show ?thesis by auto
  next
    case (Inr db)
    obtain tr1 r1 where l: "launch_fzf fzf db = (tr1, r1)" by (cases "launch_fzf fzf db")
    note lc = launch_fzf_cases [OF l]
    have np1: "\<And>q. Print q \<notin> set tr1" using lc by blast
    have run: "Run_selector (fzf_input db) \<in> set tr1" using lc by blast
    have third: "\<And>tr0' db' rc out. merge_docsets fs ?ds = (tr0', Inr db')
            \<Longrightarrow> fzf (fzf_input db') = Completed rc out \<Longrightarrow> rc \<noteq> 0 \<Longrightarrow> rc \<noteq> 130
            \<Longrightarrow> r1 = Inl (Exit rc)"
    proof -
      fix tr0' db' rc out
      assume "merge_docsets fs ?ds = (tr0', Inr db')"
        and f: "fzf (fzf_input db') = Completed rc out" "rc \<noteq> 0" "rc \<noteq> 130"
      with m Inr have "db' = db" by simp
      with launch_fzf_failed [of fzf db rc out] f l show "r1 = Inl (Exit rc)" by simp
    qed
    show ?thesis
    proof (cases r1)
      case (Inl t')
      with assms(1) False ne m Inr l have tt: "tr = tr0 @ tr1" "t = t'"
        by (simp_all add: main_def)
      show ?thesis
      proof (cases t')
        case (Exit rc)
        with lc Inl obtain out where
          f: "fzf (fzf_input db) = Completed rc out" "rc \<noteq> 0" "rc \<noteq> 130"
          by blast
        from assms(2) f(1) have "- 256 < rc" "rc < 256" by blast+
        with f(2) have nz: "rc mod 256 \<noteq> 0" by (intro low_byte_nonzero)
        have a: "exit_status t = 0 \<longleftrightarrow> (\<exists>q. Print q \<in> set tr)"
          using nz np0 np1 tt Exit by simp
        have b: "\<exists>inp rc' out. Run_selector inp \<in> set tr \<and> fzf inp = Completed rc' out
                   \<and> rc' \<noteq> 0 \<and> rc' \<noteq> 130 \<and> t = Exit rc'"
          using run f tt Exit by auto
        have c: "\<forall>tr0 db rc out. filter is_docset_arg args \<noteq> []
            \<and> merge_docsets fs ?ds = (tr0, Inr db)
            \<and> fzf (fzf_input db) = Completed rc out \<and> rc \<noteq> 0 \<and> rc \<noteq> 130
            \<longrightarrow> t = Exit rc"
          using third Inl tt by auto
        from a b c show ?thesis by blast
      next
        case (Uncaught e)
        have a: "exit_status t = 0 \<longleftrightarrow> (\<exists>q. Print q \<in> set tr)"
          using np0 np1 tt Uncaught by simp
        have c: "\<forall>tr0 db rc out. filter is_docset_arg args \<noteq> []
            \<and> merge_docsets fs ?ds = (tr0, Inr db)
            \<and> fzf (fzf_input db) = Completed rc out \<and> rc \<noteq> 0 \<and> rc \<noteq> 130
            \<longrightarrow> t = Exit rc"
          using third Inl tt by auto
        from a c tt Uncaught show ?thesis by simp
      qed
    next
      case (Inr sel)
      have c: "\<forall>tr0 db rc out. filter is_docset_arg args \<noteq> []
            \<and> merge_docsets fs ?ds = (tr0, Inr db)
            \<and> fzf (fzf_input db) = Completed rc out \<and> rc \<noteq> 0 \<and> rc \<noteq> 130
            \<longrightarrow> t = Exit rc"
        using third Inr by auto
      show ?thesis
      proof (cases sel)
        case None
        with assms(1) False ne m \<open>r0 = Inr db\<close> l Inr have tt: "tr = tr0 @ tr1" "t = Exit 1"
          by (simp_all add: main_def)
        have a: "exit_status t = 0 \<longleftrightarrow> (\<exists>q. Print q \<in> set tr)"
          using np0 np1 tt by simp
        from a c tt show ?thesis by simp
      next
        case (Some s)
        with lc Inr have "s \<noteq> []" by blast
        with assms(1) False ne m \<open>r0 = Inr db\<close> l Inr Some
        have tt: "tr = tr0 @ tr1 @ [Print s]" "t = Exit 0"
          by (simp_all add: main_def)
        have a: "exit_status t = 0 \<longleftrightarrow> (\<exists>q. Print q \<in> set tr)"
          using tt by auto
        from a c tt show ?thesis by simp
      qed
    qed
  qed
qed

lemma main_after_merge:
  assumes "filter is_docset_arg args \<noteq> []"
    and "merge_docsets fs (map Path (filter is_docset_arg args)) = (tr0, Inr db)"
  shows "main fs fzf prog args =
     (case launch_fzf fzf db of
        (tr', Inl t) \<Rightarrow> (tr0 @ tr', t)
      | (tr', Inr None) \<Rightarrow> (tr0 @ tr', Exit 1)
      | (tr', Inr (Some selected_path)) \<Rightarrow>
          if selected_path \<noteq> []
          then (tr0 @ tr' @ [Print selected_path], Exit 0)
          else (tr0 @ tr', Exit 1))"
proof -
  from assms(1) have "args \<noteq> []" by auto
  with assms show ?thesis by (simp add: main_def)
qed

lemma main_selector_cases:
  assumes "filter is_docset_arg args \<noteq> []"
    and "merge_docsets fs (map Path (filter is_docset_arg args)) = (tr0, Inr db)"
    and "main fs fzf prog args = (tr, t)"
  shows "(\<forall>rc out. fzf (fzf_input db) = Completed rc out \<and> rc \<noteq> 0 \<and> rc \<noteq> 130 \<longrightarrow> t = Exit rc)
       \<and> (\<forall>out. fzf (fzf_input db) = Completed 130 out \<longrightarrow> t = Exit 1)
       \<and> (\<forall>out. fzf (fzf_input db) = Completed 0 out \<and> strip out = [] \<longrightarrow> t = Exit 1)
       \<and> (\<forall>out. fzf (fzf_input db) = Completed 0 out \<and> strip out \<noteq> []
             \<longrightarrow> t = Exit 0 \<and> Print (strip out) \<in> set tr)
       \<and> (\<forall>e. fzf (fzf_input db) = Raises e \<and> is_FileNotFoundError e \<longrightarrow> t = Exit 1)
       \<and> (\<forall>e. fzf (fzf_input db) = Raises e \<and> \<not> is_FileNotFoundError e
             \<longrightarrow> t = Uncaught e \<and> exit_status t = 1)"
proof -
  note eq = main_after_merge [OF assms(1,2), of fzf prog]
  show ?thesis
  proof (cases "fzf (fzf_input db)")
    case (Raises e)
    with eq assms(3) show ?thesis by (auto simp: launch_fzf_def split: if_splits)
  next
    case (Completed rc out)
    with eq assms(3) show ?thesis by (auto simp: launch_fzf_def split: if_splits)
  qed
qed

lemma main_merge_failed:
  assumes "filter is_docset_arg args \<noteq> []"
    and "merge_docsets fs (map Path (filter is_docset_arg args)) = (tr0, Inl e)"
  shows "main fs fzf prog args = (tr0, Uncaught e)"
proof -
  from assms(1) have "args \<noteq> []" by auto
  with assms show ?thesis by (simp add: main_def)
qed

text \<open>
  Claim C4, as the code has it. With selector return codes in the open range from -256
  to 256, the exit status is 0 exactly when a path was printed, and a status other than
  0 and 1 comes only from a selector that completes with a return code other than 0
  and 130: the process then ends by \<^verbatim>\<open>sys.exit\<close> of that return code. The cases, one by
  one: no argument left by the filter (no argument at all too) gives status 1; an
  exception that leaves the merge is not caught and gives status 1; after a merge, a
  selector return code other than 0 and 130 gives that code, the code 130 (cancelled)
  gives 1, the code 0 with an output that is empty once stripped gives 1, the code 0
  with another output prints the stripped output and gives 0, a selector that is not
  found gives 1, and another exception of the run of the selector is not caught and
  gives 1.
\<close>

theorem exit_status_of_main:
  assumes "main fs fzf prog args = (tr, t)"
    and "\<forall>inp rc out. fzf inp = Completed rc out \<longrightarrow> - 256 < rc \<and> rc < 256"
  shows "(exit_status t = 0 \<longleftrightarrow> (\<exists>q. Print q \<in> set tr))
       \<and> (exit_status t \<noteq> 0 \<and> exit_status t \<noteq> 1
            \<longrightarrow> (\<exists>inp rc out. Run_selector inp \<in> set tr \<and> fzf inp = Completed rc out
                   \<and> rc \<noteq> 0 \<and> rc \<noteq> 130 \<and> t = Exit rc))
       \<and> (filter is_docset_arg args = [] \<longrightarrow> t = Exit 1)
       \<and> (\<forall>tr0 e. filter is_docset_arg args \<noteq> []
            \<and> merge_docsets fs (map Path (filter is_docset_arg args)) = (tr0, Inl e)
            \<longrightarrow> t = Uncaught e \<and> exit_status t = 1)
       \<and> (\<forall>tr0 db. filter is_docset_arg args \<noteq> []
            \<and> merge_docsets fs (map Path (filter is_docset_arg args)) = (tr0, Inr db)
            \<longrightarrow> (\<forall>rc out. fzf (fzf_input db) = Completed rc out \<and> rc \<noteq> 0 \<and> rc \<noteq> 130
                    \<longrightarrow> t = Exit rc)
              \<and> (\<forall>out. fzf (fzf_input db) = Completed 130 out \<longrightarrow> t = Exit 1)
              \<and> (\<forall>out. fzf (fzf_input db) = Completed 0 out \<and> strip out = [] \<longrightarrow> t = Exit 1)
              \<and> (\<forall>out. fzf (fzf_input db) = Completed 0 out \<and> strip out \<noteq> []
                    \<longrightarrow> t = Exit 0 \<and> Print (strip out) \<in> set tr)
              \<and> (\<forall>e. fzf (fzf_input db) = Raises e \<and> is_FileNotFoundError e \<longrightarrow> t = Exit 1)
              \<and> (\<forall>e. fzf (fzf_input db) = Raises e \<and> \<not> is_FileNotFoundError e
                    \<longrightarrow> t = Uncaught e \<and> exit_status t = 1))"
proof -
  note sum = main_exit_summary [OF assms]
  have c1: "exit_status t = 0 \<longleftrightarrow> (\<exists>q. Print q \<in> set tr)"
    using sum by (rule conjunct1)
  have c2: "exit_status t \<noteq> 0 \<and> exit_status t \<noteq> 1
            \<longrightarrow> (\<exists>inp rc out. Run_selector inp \<in> set tr \<and> fzf inp = Completed rc out
                   \<and> rc \<noteq> 0 \<and> rc \<noteq> 130 \<and> t = Exit rc)"
    using sum by (rule conjunct2 [THEN conjunct1])
  have c3: "filter is_docset_arg args = [] \<longrightarrow> t = Exit 1"
  proof
    assume "filter is_docset_arg args = []"
    then have "snd (main fs fzf prog args) = Exit 1"
      by (simp add: main_def)
    with assms(1) show "t = Exit 1" by simp
  qed
  have c4: "\<forall>tr0 e. filter is_docset_arg args \<noteq> []
            \<and> merge_docsets fs (map Path (filter is_docset_arg args)) = (tr0, Inl e)
            \<longrightarrow> t = Uncaught e \<and> exit_status t = 1"
  proof (intro allI impI)
    fix tr0 e
    assume h: "filter is_docset_arg args \<noteq> []
            \<and> merge_docsets fs (map Path (filter is_docset_arg args)) = (tr0, Inl e)"
    have "main fs fzf prog args = (tr0, Uncaught e)"
      by (rule main_merge_failed [OF h [THEN conjunct1] h [THEN conjunct2]])
    with assms(1) have "t = Uncaught e" by simp
    then show "t = Uncaught e \<and> exit_status t = 1" by simp
  qed
  have c5: "\<forall>tr0 db. filter is_docset_arg args \<noteq> []
            \<and> merge_docsets fs (map Path (filter is_docset_arg args)) = (tr0, Inr db)
            \<longrightarrow> (\<forall>rc out. fzf (fzf_input db) = Completed rc out \<and> rc \<noteq> 0 \<and> rc \<noteq> 130
                    \<longrightarrow> t = Exit rc)
              \<and> (\<forall>out. fzf (fzf_input db) = Completed 130 out \<longrightarrow> t = Exit 1)
              \<and> (\<forall>out. fzf (fzf_input db) = Completed 0 out \<and> strip out = [] \<longrightarrow> t = Exit 1)
              \<and> (\<forall>out. fzf (fzf_input db) = Completed 0 out \<and> strip out \<noteq> []
                    \<longrightarrow> t = Exit 0 \<and> Print (strip out) \<in> set tr)
              \<and> (\<forall>e. fzf (fzf_input db) = Raises e \<and> is_FileNotFoundError e \<longrightarrow> t = Exit 1)
              \<and> (\<forall>e. fzf (fzf_input db) = Raises e \<and> \<not> is_FileNotFoundError e
                    \<longrightarrow> t = Uncaught e \<and> exit_status t = 1)"
  proof (rule allI, rule allI, rule impI)
    fix tr0 db
    assume h: "filter is_docset_arg args \<noteq> []
            \<and> merge_docsets fs (map Path (filter is_docset_arg args)) = (tr0, Inr db)"
    show "(\<forall>rc out. fzf (fzf_input db) = Completed rc out \<and> rc \<noteq> 0 \<and> rc \<noteq> 130
                    \<longrightarrow> t = Exit rc)
              \<and> (\<forall>out. fzf (fzf_input db) = Completed 130 out \<longrightarrow> t = Exit 1)
              \<and> (\<forall>out. fzf (fzf_input db) = Completed 0 out \<and> strip out = [] \<longrightarrow> t = Exit 1)
              \<and> (\<forall>out. fzf (fzf_input db) = Completed 0 out \<and> strip out \<noteq> []
                    \<longrightarrow> t = Exit 0 \<and> Print (strip out) \<in> set tr)
              \<and> (\<forall>e. fzf (fzf_input db) = Raises e \<and> is_FileNotFoundError e \<longrightarrow> t = Exit 1)
              \<and> (\<forall>e. fzf (fzf_input db) = Raises e \<and> \<not> is_FileNotFoundError e
                    \<longrightarrow> t = Uncaught e \<and> exit_status t = 1)"
      by (rule main_selector_cases [OF h [THEN conjunct1] h [THEN conjunct2] assms(1)])
  qed
  from c1 c2 c3 c4 c5 show ?thesis by (intro conjI)
qed

theorem exit_status_of_main_witness:
  "main (\<lambda>p. Missing) (\<lambda>i. Completed 0 (''/d/Foo.docset/x.html'' @ [CHR 0x0A])) ''dashp''
         [''Foo.docset'']
       = ([Warning ''Database not found for docset: Foo.docset'', Run_selector [],
           Print ''/d/Foo.docset/x.html''], Exit 0)
   \<and> exit_status (Exit 0) = 0
   \<and> (\<exists>q. Print q \<in> set [Warning ''Database not found for docset: Foo.docset'',
                             Run_selector [], Print ''/d/Foo.docset/x.html''])
   \<and> snd (main (\<lambda>p. Missing) (\<lambda>i. Completed 130 []) ''dashp'' [''Foo.docset'']) = Exit 1
   \<and> snd (main (\<lambda>p. Missing) (\<lambda>i. Raises (FileNotFoundError ''fzf'')) ''dashp'' [''Foo.docset''])
       = Exit 1"
  (is "?run \<and> ?status \<and> ?printed \<and> ?cancel \<and> ?missing")
proof -
  have r: "\<forall>inp rc out.
      (\<lambda>i. Completed 0 (''/d/Foo.docset/x.html'' @ [CHR 0x0A])) inp = Completed rc out
        \<longrightarrow> - 256 < rc \<and> rc < 256"
    by simp
  have m: ?run by code_simp
  have s: ?status by simp
  from exit_status_of_main
    [of "\<lambda>p. Missing" "\<lambda>i. Completed 0 (''/d/Foo.docset/x.html'' @ [CHR 0x0A])" "''dashp''"
        "[''Foo.docset'']"
        "[Warning ''Database not found for docset: Foo.docset'', Run_selector [],
          Print ''/d/Foo.docset/x.html'']" "Exit 0", OF m, THEN conjunct1]
  have "?status \<longleftrightarrow> ?printed" using r by simp
  with s have p: ?printed by (simp only:)
  have ne: "filter is_docset_arg [''Foo.docset''] \<noteq> []" by code_simp
  have mg: "merge_docsets (\<lambda>p. Missing) (map Path (filter is_docset_arg [''Foo.docset'']))
      = ([Warning ''Database not found for docset: Foo.docset''], Inr [])"
    by code_simp
  have fi: "fzf_input [] = []" by (simp add: fzf_input_def)
  have c: ?cancel
  proof -
    let ?fzf = "\<lambda>i::string. Completed 130 []"
    have run: "main (\<lambda>p. Missing) ?fzf ''dashp'' [''Foo.docset'']
        = (fst (main (\<lambda>p. Missing) ?fzf ''dashp'' [''Foo.docset'']),
           snd (main (\<lambda>p. Missing) ?fzf ''dashp'' [''Foo.docset'']))"
      by simp
    have rg: "\<forall>inp rc out. ?fzf inp = Completed rc out \<longrightarrow> - 256 < rc \<and> rc < 256" by simp
    note inst = exit_status_of_main [OF run rg, THEN conjunct2, THEN conjunct2, THEN conjunct2,
        THEN conjunct2, rule_format, OF conjI [OF ne mg]]
    show ?thesis by (rule inst [THEN conjunct2, THEN conjunct1, rule_format]) simp
  qed
  have n: ?missing
  proof -
    let ?fzf = "\<lambda>i::string. Raises (FileNotFoundError ''fzf'')"
    have run: "main (\<lambda>p. Missing) ?fzf ''dashp'' [''Foo.docset'']
        = (fst (main (\<lambda>p. Missing) ?fzf ''dashp'' [''Foo.docset'']),
           snd (main (\<lambda>p. Missing) ?fzf ''dashp'' [''Foo.docset'']))"
      by simp
    have rg: "\<forall>inp rc out. ?fzf inp = Completed rc out \<longrightarrow> - 256 < rc \<and> rc < 256" by simp
    note inst = exit_status_of_main [OF run rg, THEN conjunct2, THEN conjunct2, THEN conjunct2,
        THEN conjunct2, rule_format, OF conjI [OF ne mg]]
    show ?thesis
      using inst [THEN conjunct2, THEN conjunct2, THEN conjunct2, THEN conjunct2,
            THEN conjunct1, THEN spec, of "FileNotFoundError ''fzf''"]
      by (simp add: fi)
  qed
  from m s p c n show ?thesis by (intro conjI)
qed

text \<open>
  Claim C4, as stated, fails. The selector runs and fails with return code 2: the
  process ends with status 2, which is neither 0 nor 1.
\<close>

theorem selector_failure_counterexample:
  "main (\<lambda>p. Missing) (\<lambda>i. Completed 2 []) ''dashp'' [''Foo.docset'']
     = ([Warning ''Database not found for docset: Foo.docset'', Run_selector [],
         Error ''FZF failed to run with exit code: 2''], Exit 2)
   \<and> exit_status (snd (main (\<lambda>p. Missing) (\<lambda>i. Completed 2 []) ''dashp'' [''Foo.docset''])) = 2"
  by code_simp

end
